theory Spec2Isabelle
  imports Main "HOL-Library.Word"
begin

section \<open>Python values\<close>

text \<open>
  The configuration values of TrainTrack are what a YAML file or a checkpoint's
  hyper-parameter table holds: \<open>None\<close>, booleans, integers, floats, strings, lists and
  mappings. A float is kept as the 64 bits of its IEEE double; no arithmetic is done on
  it here. A mapping is an association list in insertion order, as a Python \<open>dict\<close>
  iterates; its keys are strings (the keys of the project's YAML files, and what
  \<open>"--" + k\<close> in \<open>dict_to_args\<close> requires).
\<close>

datatype pyval =
    VNone
  | VBool bool
  | VInt int
  | VFloat "64 word"
  | VStr string
  | VList "pyval list"
  | VDict "(string \<times> pyval) list"

type_synonym pydict = "(string \<times> pyval) list"

text \<open>
  The exceptions that the modelled code can raise, as values. The last constructor is
  no exception: it marks a run that would store a key that is not a string in a mapping,
  which the mappings of this model cannot hold; the model follows such a run no further
  and says nothing about how it ends.
\<close>

datatype pyerror =
    KeyError string
  | TypeError
  | ValueError
  | AttributeError
  | FileNotFoundError
  | YAMLError
  | AssertionError
  | OutsideModel

text \<open>Sequencing of a computation that may raise: the first exception wins.\<close>

definition bindE :: "pyerror + 'a \<Rightarrow> ('a \<Rightarrow> pyerror + 'b) \<Rightarrow> pyerror + 'b" where
  "bindE m f = (case m of Inl e \<Rightarrow> Inl e | Inr x \<Rightarrow> f x)"

subsection \<open>Dictionaries\<close>

text \<open>
  \<open>d[k] = v\<close>: an existing key keeps its position and takes the new value, a new key
  goes to the end.
\<close>

primrec dict_set :: "(string \<times> 'v) list \<Rightarrow> string \<Rightarrow> 'v \<Rightarrow> (string \<times> 'v) list" where
  "dict_set [] k v = [(k, v)]"
| "dict_set (p # ps) k v = (if fst p = k then (k, v) # ps else p # dict_set ps k v)"

text \<open>\<open>k in d\<close> and \<open>d[k]\<close>, which raises \<open>KeyError\<close> on a missing key.\<close>

definition dict_has :: "(string \<times> 'v) list \<Rightarrow> string \<Rightarrow> bool" where
  "dict_has d k = (k \<in> set (map fst d))"

definition dict_get :: "(string \<times> 'v) list \<Rightarrow> string \<Rightarrow> pyerror + 'v" where
  "dict_get d k = (case map_of d k of None \<Rightarrow> Inl (KeyError k) | Some v \<Rightarrow> Inr v)"

text \<open>
  \<open>d.update(other)\<close> for a mapping \<open>other\<close>, and \<open>dict(pairs)\<close>: the pairs are
  stored one after the other, in their order.
\<close>

definition dict_update ::
  "(string \<times> 'v) list \<Rightarrow> (string \<times> 'v) list \<Rightarrow> (string \<times> 'v) list" where
  "dict_update d other = fold (\<lambda>(k, v) acc. dict_set acc k v) other d"

definition dict_of_pairs :: "(string \<times> 'v) list \<Rightarrow> (string \<times> 'v) list" where
  "dict_of_pairs pairs = dict_update [] pairs"

text \<open>A well-formed dictionary holds every key once.\<close>

definition wf_dict :: "(string \<times> 'v) list \<Rightarrow> bool" where
  "wf_dict d = distinct (map fst d)"

subsection \<open>Truth values, iteration, subscripts\<close>

text \<open>
  The truth value Python gives an object in \<open>if\<close>, \<open>and\<close> and \<open>not\<close>. A float is
  false when it is \<open>0.0\<close> or \<open>-0.0\<close>.
\<close>

fun truthy :: "pyval \<Rightarrow> bool" where
  "truthy VNone = False"
| "truthy (VBool b) = b"
| "truthy (VInt i) = (i \<noteq> 0)"
| "truthy (VFloat w) = (w \<noteq> 0 \<and> w \<noteq> 0x8000000000000000)"
| "truthy (VStr s) = (s \<noteq> [])"
| "truthy (VList xs) = (xs \<noteq> [])"
| "truthy (VDict d) = (d \<noteq> [])"

text \<open>
  \<open>iter(v)\<close>: the elements of a list, the one-character strings of a string, the keys
  of a mapping; the other values are not iterable.
\<close>

fun seq_items :: "pyval \<Rightarrow> pyval list option" where
  "seq_items (VList xs) = Some xs"
| "seq_items (VStr s) = Some (map (\<lambda>c. VStr [c]) s)"
| "seq_items (VDict d) = Some (map (\<lambda>p. VStr (fst p)) d)"
| "seq_items v = None"

text \<open>
  \<open>v[k]\<close> and \<open>v[k] = x\<close> for a string \<open>k\<close>: a mapping looks the key up or stores it;
  a list or a string wants an integer index, and the other values have no subscript at
  all: \<open>TypeError\<close> in each case.
\<close>

definition subscript :: "pyval \<Rightarrow> string \<Rightarrow> pyerror + pyval" where
  "subscript v k = (case v of VDict d \<Rightarrow> dict_get d k | _ \<Rightarrow> Inl TypeError)"

definition setitem :: "pyval \<Rightarrow> string \<Rightarrow> pyval \<Rightarrow> pyerror + pydict" where
  "setitem v k x = (case v of VDict d \<Rightarrow> Inr (dict_set d k x) | _ \<Rightarrow> Inl TypeError)"

text \<open>
  \<open>d.update(v)\<close> for any value \<open>v\<close>. A mapping is stored key by key. Any other
  iterable is read as a sequence of pairs: each element must itself be iterable
  (\<open>TypeError\<close> otherwise) and have exactly two items (\<open>ValueError\<close> otherwise), the key
  and the value. A list or a mapping as key is unhashable (\<open>TypeError\<close>). Python
  stores a key of any other type; a string is stored here, and \<open>None\<close>, a boolean, an
  integer or a float as key takes the run outside the model (\<open>OutsideModel\<close>).
\<close>

fun store_pair :: "pydict \<Rightarrow> pyval \<Rightarrow> pyval \<Rightarrow> pyerror + pydict" where
  "store_pair d (VStr k) v = Inr (dict_set d k v)"
| "store_pair d (VList xs) v = Inl TypeError"
| "store_pair d (VDict kvs) v = Inl TypeError"
| "store_pair d k v = Inl OutsideModel"

fun update_pairs :: "pydict \<Rightarrow> pyval list \<Rightarrow> pyerror + pydict" where
  "update_pairs d [] = Inr d"
| "update_pairs d (e # es) =
     (case seq_items e of
        None \<Rightarrow> Inl TypeError
      | Some [k, v] \<Rightarrow> bindE (store_pair d k v) (\<lambda>d'. update_pairs d' es)
      | Some _ \<Rightarrow> Inl ValueError)"

definition py_update :: "pydict \<Rightarrow> pyval \<Rightarrow> pyerror + pydict" where
  "py_update d v =
     (case v of
        VDict other \<Rightarrow> Inr (dict_update d other)
      | _ \<Rightarrow> (case seq_items v of None \<Rightarrow> Inl TypeError | Some es \<Rightarrow> update_pairs d es))"

subsection \<open>Strings\<close>

text \<open>\<open>sep.join(parts)\<close> for a list of strings.\<close>

fun str_join :: "string \<Rightarrow> string list \<Rightarrow> string" where
  "str_join sep [] = []"
| "str_join sep [x] = x"
| "str_join sep (x # y # ys) = x @ sep @ str_join sep (y # ys)"

text \<open>
  \<open>sep.join(v)\<close> for any value: \<open>v\<close> must be iterable and each of its items a string,
  \<open>TypeError\<close> otherwise.
\<close>

fun strs_of :: "pyval list \<Rightarrow> string list option" where
  "strs_of [] = Some []"
| "strs_of (VStr s # es) = map_option (\<lambda>ss. s # ss) (strs_of es)"
| "strs_of (_ # es) = None"

definition py_join :: "string \<Rightarrow> pyval \<Rightarrow> pyerror + string" where
  "py_join sep v =
     (case seq_items v of
        None \<Rightarrow> Inl TypeError
      | Some es \<Rightarrow> (case strs_of es of None \<Rightarrow> Inl TypeError | Some ss \<Rightarrow> Inr (str_join sep ss)))"

text \<open>The decimal numeral of an integer, as \<open>str\<close> prints it.\<close>

definition digit_char :: "nat \<Rightarrow> char" where
  "digit_char d = ''0123456789'' ! (d mod 10)"

fun nat_digits :: "nat \<Rightarrow> string" where
  "nat_digits n = (if n < 10 then [digit_char n] else nat_digits (n div 10) @ [digit_char n])"

definition int_str :: "int \<Rightarrow> string" where
  "int_str i = (if i < 0 then CHR ''-'' # nat_digits (nat (- i)) else nat_digits (nat i))"

text \<open>
  What the model takes from the interpreter without looking inside: the text \<open>str\<close>
  gives a float, the float that \<open>float\<close> reads from a string (\<open>None\<close> where it raises
  \<open>ValueError\<close>), and the text \<open>str\<close> gives a list or a mapping. With them comes one
  setting of the interpreter: \<open>sys.get_int_max_str_digits()\<close>, the most digits that
  \<open>int\<close> reads from a string (4300 unless changed, 0 for no limit, from CPython 3.11
  on; an interpreter without the limit is one where it is 0).
\<close>

record builtins =
  int_max_str_digits :: nat
  float_repr :: "64 word \<Rightarrow> string"
  float_parse :: "string \<Rightarrow> 64 word option"
  container_repr :: "pyval \<Rightarrow> string"

fun py_str :: "builtins \<Rightarrow> pyval \<Rightarrow> string" where
  "py_str B VNone = ''None''"
| "py_str B (VBool b) = (if b then ''True'' else ''False'')"
| "py_str B (VInt i) = int_str i"
| "py_str B (VFloat w) = float_repr B w"
| "py_str B (VStr s) = s"
| "py_str B v = container_repr B v"

section \<open>Sweep expansion: \<open>combo_config\<close>\<close>

text \<open>
  \<^verbatim>\<open>
  def combo_config(config):
      total_list = {k: (v if type(v) == list else [v]) for (k, v) in config.items()}
      keys, values = zip(*total_list.items())
      config_list = []
      [config_list.append(dict(zip(keys, bundle))) for bundle in product(*values)]
      return config_list
  \<close>
\<close>

text \<open>\<open>v if type(v) == list else [v]\<close>\<close>

definition sweep_axis :: "pyval \<Rightarrow> pyval list" where
  "sweep_axis v = (case v of VList xs \<Rightarrow> xs | _ \<Rightarrow> [v])"

text \<open>
  \<open>itertools.product(*values)\<close>: the tuples in lexicographic order of positions, the
  last axis varying fastest.
\<close>

primrec itertools_product :: "'a list list \<Rightarrow> 'a list list" where
  "itertools_product [] = [[]]"
| "itertools_product (xs # xss) =
     concat (map (\<lambda>x. map (\<lambda>t. x # t) (itertools_product xss)) xs)"

text \<open>
  \<open>keys, values = zip(*items)\<close>: the transposition of a non-empty list of pairs is the
  pair of its columns; that of no pairs at all is empty, and unpacking it into two names
  raises \<open>ValueError\<close>.
\<close>

definition unpack_columns ::
  "(string \<times> pyval list) list \<Rightarrow> pyerror + (string list \<times> pyval list list)" where
  "unpack_columns items =
     (if items = [] then Inl ValueError else Inr (map fst items, map snd items))"

definition combo_config :: "pydict \<Rightarrow> pyerror + pydict list" where
  "combo_config config =
     (let total_list = dict_of_pairs (map (\<lambda>(k, v). (k, sweep_axis v)) config)
      in bindE (unpack_columns total_list)
           (\<lambda>(keys, vals).
              Inr (map (\<lambda>bundle. dict_of_pairs (zip keys bundle)) (itertools_product vals))))"

section \<open>Argument serialisation: \<open>dict_to_args\<close>\<close>

text \<open>
  \<^verbatim>\<open>
  def dict_to_args(config):
      collapsed_list = list(collapse([["--" + k, v] for k, v in config.items()]))
      collapsed_list = [str(entry) for entry in collapsed_list]
      command_line_args = " ".join(collapsed_list)
      return command_line_args
  \<close>
  \<open>more_itertools.collapse\<close> flattens every level of nesting, depth first: a
  string is a leaf, any other iterable (a list, or a mapping, which iterates over its
  keys) is replaced by the leaves of its items, and a value that is not iterable is a
  leaf.
\<close>

fun collapse :: "pyval \<Rightarrow> pyval list" where
  "collapse (VList xs) = concat (map collapse xs)"
| "collapse (VDict d) = map (\<lambda>p. VStr (fst p)) d"
| "collapse v = [v]"

definition arg_leaves :: "pydict \<Rightarrow> pyval list" where
  "arg_leaves config = collapse (VList (map (\<lambda>(k, v). VList [VStr (''--'' @ k), v]) config))"

definition arg_tokens :: "builtins \<Rightarrow> pydict \<Rightarrow> string list" where
  "arg_tokens B config = map (py_str B) (arg_leaves config)"

definition dict_to_args :: "builtins \<Rightarrow> pydict \<Rightarrow> string" where
  "dict_to_args B config = str_join '' '' (arg_tokens B config)"

section \<open>Type estimation: \<open>estimateType\<close> and \<open>autocast\<close>\<close>

text \<open>
  \<^verbatim>\<open>
  def boolify(s):
      if s == "True" or s == "true": return True
      if s == "False" or s == "false": return False
      raise ValueError("Not Boolean Value!")

  def nullify(s):
      if s == "None" or s == "none": return None
      raise ValueError("Not None type!")
  \<close>
\<close>

definition boolify :: "string \<Rightarrow> pyerror + pyval" where
  "boolify s =
     (if s = ''True'' \<or> s = ''true'' then Inr (VBool True)
      else if s = ''False'' \<or> s = ''false'' then Inr (VBool False)
      else Inl ValueError)"

definition nullify :: "string \<Rightarrow> pyerror + pyval" where
  "nullify s = (if s = ''None'' \<or> s = ''none'' then Inr VNone else Inl ValueError)"

text \<open>
  \<open>int(s)\<close> for a string, base ten: white space around the numeral is dropped, one
  sign may come first, and the digits may be grouped by single underscores, which stand
  neither first nor last. Anything else raises \<open>ValueError\<close>, and so does a numeral
  of more digits than the interpreter's limit; the limit is only looked at above 640
  digits, and no limit can be set below that. The strings here are ASCII, where the
  white space that \<open>int\<close> drops is the blank and the five characters from tab to
  carriage return.
\<close>

definition is_space :: "char \<Rightarrow> bool" where
  "is_space c = (c \<in> set [CHR '' '', CHR 0x09, CHR 0x0A, CHR 0x0B, CHR 0x0C, CHR 0x0D])"

definition strip :: "string \<Rightarrow> string" where
  "strip s = rev (dropWhile is_space (rev (dropWhile is_space s)))"

definition is_digit :: "char \<Rightarrow> bool" where
  "is_digit c = (c \<in> set ''0123456789'')"

fun digits_ok :: "string \<Rightarrow> bool" where
  "digits_ok [] = False"
| "digits_ok [c] = is_digit c"
| "digits_ok (c # d # cs) =
     (is_digit c \<and> (if d = CHR ''_'' then digits_ok cs else digits_ok (d # cs)))"

definition digit_val :: "char \<Rightarrow> int" where
  "digit_val c = int (of_char c) - 48"

definition digits_value :: "string \<Rightarrow> int" where
  "digits_value s = foldl (\<lambda>acc c. 10 * acc + digit_val c) 0 (filter is_digit s)"

definition too_many_digits :: "builtins \<Rightarrow> string \<Rightarrow> bool" where
  "too_many_digits B body =
     (let digits = length (filter is_digit body)
      in digits > 640 \<and> int_max_str_digits B > 0 \<and> digits > int_max_str_digits B)"

definition py_int :: "builtins \<Rightarrow> string \<Rightarrow> pyerror + pyval" where
  "py_int B s =
     (let t = strip s;
          neg = (t \<noteq> [] \<and> hd t = CHR ''-'');
          body = (if t \<noteq> [] \<and> (hd t = CHR ''-'' \<or> hd t = CHR ''+'') then tl t else t)
      in if digits_ok body \<and> \<not> too_many_digits B body
         then Inr (VInt (if neg then - digits_value body else digits_value body))
         else Inl ValueError)"

definition py_float :: "builtins \<Rightarrow> string \<Rightarrow> pyerror + pyval" where
  "py_float B s = (case float_parse B s of None \<Rightarrow> Inl ValueError | Some w \<Rightarrow> Inr (VFloat w))"

text \<open>
  \<^verbatim>\<open>
  def estimateType(var):
      if type(var) is list:
          if len(var) == 1:
              return estimateType(var[0])
          else:
              return [estimateType(varEntry) for varEntry in var]
      else:
          var = str(var)
          for caster in (nullify, boolify, int, float):
              try:
                  return caster(var)
              except ValueError:
                  pass
      return var
  \<close>
  The loop over the casters returns the first result that is not a \<open>ValueError\<close>; none
  of the four raises anything else on a string.
\<close>

fun try_casters :: "(string \<Rightarrow> pyerror + pyval) list \<Rightarrow> string \<Rightarrow> pyval" where
  "try_casters [] var = VStr var"
| "try_casters (caster # rest) var =
     (case caster var of Inr v \<Rightarrow> v | Inl e \<Rightarrow> try_casters rest var)"

fun estimateType :: "builtins \<Rightarrow> pyval \<Rightarrow> pyval" where
  "estimateType B (VList [x]) = estimateType B x"
| "estimateType B (VList xs) = VList (map (estimateType B) xs)"
| "estimateType B v = try_casters [nullify, boolify, py_int B, py_float B] (py_str B v)"

text \<open>
  \<^verbatim>\<open>
  def autocast(dFxn):
      def wrapped(*c, **d):
          cp = [estimateType(x) for x in c]
          dp = dict((i, estimateType(j)) for (i, j) in d.items())
          return dFxn(*cp, **dp)
      return wrapped
  \<close>
\<close>

definition autocast ::
  "builtins \<Rightarrow> (pyval list \<Rightarrow> pydict \<Rightarrow> 'r) \<Rightarrow> pyval list \<Rightarrow> pydict \<Rightarrow> 'r" where
  "autocast B dFxn c d =
     dFxn (map (estimateType B) c) (dict_of_pairs (map (\<lambda>(i, j). (i, estimateType B j)) d))"

section \<open>The file system and the libraries around the code\<close>

text \<open>
  A directory, as one step of \<open>os.walk\<close> lists it: its sub-directories by name, in the
  order of the listing, and the names of its other entries.
\<close>

datatype fstree = Dir "(string \<times> fstree) list" "string list"

text \<open>
  \<open>os.path.join(a, *p)\<close> of \<open>posixpath\<close>: a component that starts with a slash
  restarts the path; a separator is put in unless the path so far is empty or ends with
  one.
\<close>

definition join_step :: "string \<Rightarrow> string \<Rightarrow> string" where
  "join_step path b =
     (if b \<noteq> [] \<and> hd b = CHR ''/'' then b
      else if path = [] \<or> last path = CHR ''/'' then path @ b
      else path @ ''/'' @ b)"

definition os_path_join :: "string \<Rightarrow> string list \<Rightarrow> string" where
  "os_path_join a p = foldl join_step a p"

text \<open>
  \<open>os.walk(top)\<close>, top down: the triple of a directory comes before those of its
  sub-directories, which follow in the order of the listing.
\<close>

fun walk :: "string \<Rightarrow> fstree \<Rightarrow> (string \<times> string list \<times> string list) list" where
  "walk topdir (Dir subs files) =
     (topdir, map fst subs, files)
       # concat (map (\<lambda>p. walk (os_path_join topdir [fst p]) (snd p)) subs)"

text \<open>
  The surroundings of a run: the directory found at a path (\<open>None\<close> where there is
  none, and \<open>os.walk\<close> then yields nothing), the text of a file (\<open>None\<close> where
  \<open>open\<close> fails), \<open>os.path.expandvars\<close> under the environment variables of the
  process, \<open>yaml.load\<close>, what \<open>torch.load\<close> reads at a path, what the constructor of
  \<open>simple_slurm.Slurm\<close> makes of its options, and the scheduler's answer to a
  submission.
\<close>

record submission =
  options :: pydict
  dependency :: "pydict option"
  command :: string
  sbatch_cmd :: string
  shell :: string

record env =
  dir_at :: "string \<Rightarrow> fstree option"
  file_text :: "string \<Rightarrow> string option"
  expandvars :: "string \<Rightarrow> string"
  yaml_load :: "string \<Rightarrow> pyerror + pyval"
  ckpt_at :: "string \<Rightarrow> pyerror + pyval"
  slurm_init :: "pydict \<Rightarrow> pyerror + pydict"
  sbatch :: "submission \<Rightarrow> pyerror + pyval"

definition os_walk :: "env \<Rightarrow> string \<Rightarrow> (string \<times> string list \<times> string list) list" where
  "os_walk E path = (case dir_at E path of None \<Rightarrow> [] | Some t \<Rightarrow> walk path t)"

text \<open>
  \<open>open(p).read()\<close>: a path that is \<open>None\<close> is a \<open>TypeError\<close>, a file that cannot be
  opened a \<open>FileNotFoundError\<close>.
\<close>

definition read_file :: "env \<Rightarrow> string option \<Rightarrow> pyerror + string" where
  "read_file E p =
     (case p of
        None \<Rightarrow> Inl TypeError
      | Some path \<Rightarrow> (case file_text E path of None \<Rightarrow> Inl FileNotFoundError | Some txt \<Rightarrow> Inr txt))"

text \<open>
  \<open>torch.load(p)\<close>: what is not a path must be a file object that can \<open>seek\<close>, so
  \<open>None\<close> is rejected with \<open>AttributeError\<close>.
\<close>

definition torch_load :: "env \<Rightarrow> string option \<Rightarrow> pyerror + pyval" where
  "torch_load E p = (case p of None \<Rightarrow> Inl AttributeError | Some path \<Rightarrow> ckpt_at E path)"

text \<open>A value used as a path: a string, \<open>TypeError\<close> otherwise.\<close>

definition as_path :: "pyval \<Rightarrow> pyerror + string" where
  "as_path v = (case v of VStr s \<Rightarrow> Inr s | _ \<Rightarrow> Inl TypeError)"

definition path_val :: "string option \<Rightarrow> pyval" where
  "path_val p = (case p of None \<Rightarrow> VNone | Some s \<Rightarrow> VStr s)"

section \<open>Checkpoint and configuration lookup\<close>

text \<open>
  \<^verbatim>\<open>
  def find_checkpoint(run_id, path):
      for root_dir, dirs, files in os.walk(path):
          if run_id in dirs:
              latest_run_path = os.path.join(root_dir, run_id, "checkpoints/last.ckpt")
              return latest_run_path
  \<close>
  A loop that ends without a \<open>return\<close> gives \<open>None\<close>.
\<close>

fun find_checkpoint_loop ::
  "string \<Rightarrow> (string \<times> string list \<times> string list) list \<Rightarrow> string option" where
  "find_checkpoint_loop run_id [] = None"
| "find_checkpoint_loop run_id ((root_dir, dirs, files) # rest) =
     (if run_id \<in> set dirs
      then Some (os_path_join root_dir [run_id, ''checkpoints/last.ckpt''])
      else find_checkpoint_loop run_id rest)"

definition find_checkpoint :: "env \<Rightarrow> string \<Rightarrow> string \<Rightarrow> string option" where
  "find_checkpoint E run_id path = find_checkpoint_loop run_id (os_walk E path)"

text \<open>
  \<^verbatim>\<open>
  def find_config(name, path):
      for root, dirs, files in os.walk(path):
          if name in files:
              return os.path.join(root, name)
  \<close>
  The name is whatever the stage holds under \<open>config\<close>; only a string can be among
  the file names.
\<close>

fun find_config_loop ::
  "pyval \<Rightarrow> (string \<times> string list \<times> string list) list \<Rightarrow> string option" where
  "find_config_loop name [] = None"
| "find_config_loop name ((root, dirs, files) # rest) =
     (case name of
        VStr n \<Rightarrow> (if n \<in> set files then Some (os_path_join root [n])
                   else find_config_loop name rest)
      | _ \<Rightarrow> find_config_loop name rest)"

definition find_config :: "env \<Rightarrow> pyval \<Rightarrow> string \<Rightarrow> string option" where
  "find_config E name path = find_config_loop name (os_walk E path)"

section \<open>Configuration resolution: \<open>load_config\<close>\<close>

text \<open>
  \<^verbatim>\<open>
  def load_config(stage, resume_id, project_config, run_args):
      if resume_id is None:
          stage_config_file = find_config(
              stage["config"],
              os.path.join(project_config["libraries"]["model_library"], stage["set"]),
          )
          with open(stage_config_file) as f:
              config = yaml.load(os.path.expandvars(f.read()), Loader=yaml.FullLoader)
          config["logger"] = project_config["logger"]
          config["resume_id"] = resume_id
      else:
          ckpnt_path = find_checkpoint(
              resume_id, project_config["libraries"]["artifact_library"]
          )
          ckpnt = torch.load(ckpnt_path, map_location=torch.device("cpu"))
          config = ckpnt["hyper_parameters"]
          config["checkpoint_path"] = ckpnt_path
      if "override" in stage.keys():
          config.update(stage["override"])
      config.update(project_config["libraries"])
      config.update(stage)
      if ("inference" in run_args) and run_args.inference:
          config["inference"] = True
      elif (
          ("inference" in run_args) and (not run_args.inference) and (not run_args.batch)
      ):
          config["inference"] = False
      return config
  \<close>
  The stage and the project configuration are mappings; \<open>run_args\<close> is an
  \<open>argparse.Namespace\<close>, given by the table of its attributes. The function is cut at
  its three steps: the base configuration (up to the first \<open>update\<close>), the three
  updates, and the inference flag.
\<close>

definition base_config :: "env \<Rightarrow> pydict \<Rightarrow> string option \<Rightarrow> pydict \<Rightarrow> pyerror + pydict" where
  "base_config E stage resume_id project_config =
     (case resume_id of
        None \<Rightarrow>
          bindE (dict_get stage ''config'') (\<lambda>name.
          bindE (dict_get project_config ''libraries'') (\<lambda>libs.
          bindE (subscript libs ''model_library'') (\<lambda>model_library.
          bindE (dict_get stage ''set'') (\<lambda>set_name.
          bindE (as_path model_library) (\<lambda>a.
          bindE (as_path set_name) (\<lambda>b.
          bindE (read_file E (find_config E name (os_path_join a [b]))) (\<lambda>txt.
          bindE (yaml_load E (expandvars E txt)) (\<lambda>config.
          bindE (dict_get project_config ''logger'') (\<lambda>logger.
          bindE (setitem config ''logger'' logger) (\<lambda>config.
          Inr (dict_set config ''resume_id'' VNone)))))))))))
      | Some run_id \<Rightarrow>
          bindE (dict_get project_config ''libraries'') (\<lambda>libs.
          bindE (subscript libs ''artifact_library'') (\<lambda>artifact_library.
          bindE (as_path artifact_library) (\<lambda>path.
          bindE (Inr (find_checkpoint E run_id path)) (\<lambda>ckpnt_path.
          bindE (torch_load E ckpnt_path) (\<lambda>ckpnt.
          bindE (subscript ckpnt ''hyper_parameters'') (\<lambda>config.
          setitem config ''checkpoint_path'' (path_val ckpnt_path))))))))"

definition merge_layers :: "pydict \<Rightarrow> pydict \<Rightarrow> pydict \<Rightarrow> pyerror + pydict" where
  "merge_layers stage project_config config =
     bindE (if dict_has stage ''override''
            then bindE (dict_get stage ''override'') (py_update config)
            else Inr config) (\<lambda>config.
     bindE (dict_get project_config ''libraries'') (\<lambda>libs.
     bindE (py_update config libs) (\<lambda>config.
     py_update config (VDict stage))))"

text \<open>\<open>ns.a\<close> on a namespace: \<open>AttributeError\<close> when the attribute is not there.\<close>

definition getattr :: "pydict \<Rightarrow> string \<Rightarrow> pyerror + pyval" where
  "getattr ns a = (case map_of ns a of None \<Rightarrow> Inl AttributeError | Some v \<Rightarrow> Inr v)"

text \<open>
  The two conditions, with the short-circuit of \<open>and\<close>: an operand is evaluated only
  when those before it are true.
\<close>

definition inference_set :: "pydict \<Rightarrow> pyerror + bool" where
  "inference_set run_args =
     (if dict_has run_args ''inference''
      then bindE (getattr run_args ''inference'') (\<lambda>i. Inr (truthy i))
      else Inr False)"

definition inference_cleared :: "pydict \<Rightarrow> pyerror + bool" where
  "inference_cleared run_args =
     (if dict_has run_args ''inference''
      then bindE (getattr run_args ''inference'') (\<lambda>i.
             if \<not> truthy i
             then bindE (getattr run_args ''batch'') (\<lambda>b. Inr (\<not> truthy b))
             else Inr False)
      else Inr False)"

definition inference_policy :: "pydict \<Rightarrow> pydict \<Rightarrow> pyerror + pydict" where
  "inference_policy run_args config =
     bindE (inference_set run_args) (\<lambda>c1.
       if c1 then Inr (dict_set config ''inference'' (VBool True))
       else bindE (inference_cleared run_args) (\<lambda>c2.
         if c2 then Inr (dict_set config ''inference'' (VBool False))
         else Inr config))"

definition load_config ::
  "env \<Rightarrow> pydict \<Rightarrow> string option \<Rightarrow> pydict \<Rightarrow> pydict \<Rightarrow> pyerror + pydict" where
  "load_config E stage resume_id project_config run_args =
     bindE (base_config E stage resume_id project_config) (\<lambda>config.
     bindE (merge_layers stage project_config config) (\<lambda>config.
     inference_policy run_args config))"

section \<open>Batch submission: \<open>submit_batch\<close>\<close>

text \<open>
  \<^verbatim>\<open>
  def submit_batch(config, project_config, running_id=None):
      with open(config["batch_config"]) as f:
          batch_config = yaml.load(f, Loader=yaml.FullLoader)
      command_line_args = dict_to_args(config)
      slurm = Slurm(**batch_config)
      if running_id is not None and project_config["serial"]:
          slurm.set_dependency(dict(afterok=running_id))
      custom_batch_setup = project_config["custom_batch_setup"]
      slurm_command = (
          "\n".join(custom_batch_setup) + """\n ttbatch """ + command_line_args
      )
      if (
          "batch_setup" in config
          and config["batch_setup"]
          and len(project_config["command_line_setup"]) > 0
      ):
          slurm_setup = ";".join(project_config["command_line_setup"] + ["sbatch"])
      else:
          slurm_setup = "sbatch"
      job_id = slurm.sbatch(slurm_command, sbatch_cmd=slurm_setup, shell="/bin/bash")
      return job_id
  \<close>
  The \<open>Slurm\<close> object is the record of what it has been given when \<open>sbatch\<close> is
  called on it; \<open>batch_submission\<close> is the function up to that call. (The path under
  \<open>batch_config\<close> is taken to be a string; \<open>open\<close> on an integer file descriptor is
  not modelled.)
\<close>

definition py_len :: "pyval \<Rightarrow> pyerror + nat" where
  "py_len v =
     (case v of
        VList xs \<Rightarrow> Inr (length xs)
      | VStr s \<Rightarrow> Inr (length s)
      | VDict d \<Rightarrow> Inr (length d)
      | _ \<Rightarrow> Inl TypeError)"

text \<open>\<open>v + ["sbatch"]\<close>: only a list can be added to a list.\<close>

definition list_add :: "pyval \<Rightarrow> pyval list \<Rightarrow> pyerror + pyval" where
  "list_add v ys = (case v of VList xs \<Rightarrow> Inr (VList (xs @ ys)) | _ \<Rightarrow> Inl TypeError)"

definition depends_on_previous :: "pydict \<Rightarrow> pyval \<Rightarrow> pyerror + bool" where
  "depends_on_previous project_config running_id =
     (if running_id \<noteq> VNone
      then bindE (dict_get project_config ''serial'') (\<lambda>serial. Inr (truthy serial))
      else Inr False)"

definition wants_setup :: "pydict \<Rightarrow> pydict \<Rightarrow> pyerror + bool" where
  "wants_setup config project_config =
     (if dict_has config ''batch_setup''
      then bindE (dict_get config ''batch_setup'') (\<lambda>bs.
             if truthy bs
             then bindE (dict_get project_config ''command_line_setup'') (\<lambda>cls.
                  bindE (py_len cls) (\<lambda>n. Inr (n > 0)))
             else Inr False)
      else Inr False)"

definition batch_submission ::
  "builtins \<Rightarrow> env \<Rightarrow> pydict \<Rightarrow> pydict \<Rightarrow> pyval \<Rightarrow> pyerror + submission" where
  "batch_submission B E config project_config running_id =
     bindE (dict_get config ''batch_config'') (\<lambda>bc.
     bindE (as_path bc) (\<lambda>bc_path.
     bindE (read_file E (Some bc_path)) (\<lambda>txt.
     bindE (yaml_load E txt) (\<lambda>batch_config.
     bindE (Inr (dict_to_args B config)) (\<lambda>command_line_args.
     bindE (case batch_config of VDict kw \<Rightarrow> slurm_init E kw | _ \<Rightarrow> Inl TypeError) (\<lambda>slurm.
     bindE (depends_on_previous project_config running_id) (\<lambda>dep.
     bindE (Inr (if dep then Some [(''afterok'', running_id)] else None)) (\<lambda>slurm_dependency.
     bindE (dict_get project_config ''custom_batch_setup'') (\<lambda>custom_batch_setup.
     bindE (py_join [CHR 0x0A] custom_batch_setup) (\<lambda>joined.
     bindE (Inr (joined @ [CHR 0x0A] @ '' ttbatch '' @ command_line_args)) (\<lambda>slurm_command.
     bindE (wants_setup config project_config) (\<lambda>setup.
     bindE (if setup
            then bindE (dict_get project_config ''command_line_setup'') (\<lambda>cls.
                 bindE (list_add cls [VStr ''sbatch'']) (py_join '';''))
            else Inr ''sbatch'') (\<lambda>slurm_setup.
     Inr \<lparr>options = slurm, dependency = slurm_dependency, command = slurm_command,
          sbatch_cmd = slurm_setup, shell = ''/bin/bash''\<rparr>)))))))))))))"

definition submit_batch :: "builtins \<Rightarrow> env \<Rightarrow> pydict \<Rightarrow> pydict \<Rightarrow> pyval \<Rightarrow> pyerror + pyval" where
  "submit_batch B E config project_config running_id =
     bindE (batch_submission B E config project_config running_id) (sbatch E)"

section \<open>The sweep, as the specification words it\<close>

text \<open>
  One run configuration per tuple of the cartesian product over the keys' axes, the
  keys in their order in the mapping and the values of a key in their listed order;
  every run configuration holds every key.
\<close>

fun spec_expand :: "pydict \<Rightarrow> pydict list" where
  "spec_expand [] = [[]]"
| "spec_expand ((k, v) # rest) =
     concat (map (\<lambda>x. map (\<lambda>rc. (k, x) # rc) (spec_expand rest)) (sweep_axis v))"

text \<open>
  A run configuration drawn from a configuration: the same keys in the same order, each
  with one value of its axis.
\<close>

definition drawn_from :: "pydict \<Rightarrow> pydict \<Rightarrow> bool" where
  "drawn_from rc config =
     list_all2 (\<lambda>(k', x) (k, v). k' = k \<and> x \<in> set (sweep_axis v)) rc config"

section \<open>Layered lookup, as the specification words it\<close>

text \<open>
  The value of a key under layers applied one after the other: that of the last layer
  that holds the key.
\<close>

fun last_writer :: "pydict list \<Rightarrow> string \<Rightarrow> pyval option" where
  "last_writer [] k = None"
| "last_writer (layer # later) k =
     (case last_writer later k of Some v \<Rightarrow> Some v | None \<Rightarrow> map_of layer k)"

section \<open>The argument tokens, as the specification words them\<close>

text \<open>
  Each key gives \<open>--key\<close>, then one token per element when its value is a list and
  one token when it is not.
\<close>

definition spec_arg_leaves :: "pydict \<Rightarrow> pyval list" where
  "spec_arg_leaves config =
     concat (map (\<lambda>(k, v). VStr (''--'' @ k) # (case v of VList xs \<Rightarrow> xs | _ \<Rightarrow> [v])) config)"

text \<open>The values that \<open>collapse\<close> does not open: all but lists and mappings.\<close>

fun is_leaf :: "pyval \<Rightarrow> bool" where
  "is_leaf (VList xs) = False"
| "is_leaf (VDict d) = False"
| "is_leaf v = True"

fun is_list :: "pyval \<Rightarrow> bool" where
  "is_list (VList xs) = True"
| "is_list v = False"

section \<open>Directories without their files\<close>

fun without_files :: "fstree \<Rightarrow> fstree" where
  "without_files (Dir subs files) = Dir (map (\<lambda>p. (fst p, without_files (snd p))) subs) []"

section \<open>A small project to run the functions on\<close>

text \<open>
  A model library with one configuration file, an artifact library with one run, a
  batch configuration, and a scheduler that answers every submission with job 124.
  The values of the examples are strings, integers, lists and mappings of these, and no
  string among them is the numeral of a float: \<open>float\<close> raises on each string it is
  asked about, and no float or container is ever printed.
\<close>

definition example_builtins :: builtins where
  "example_builtins =
     \<lparr>int_max_str_digits = 4300, float_repr = (\<lambda>w. ''0.0''), float_parse = (\<lambda>s. None),
      container_repr = (\<lambda>v. ''[]'')\<rparr>"

definition example_env :: env where
  "example_env =
     \<lparr>dir_at = (\<lambda>p. if p = ''/m/s'' then Some (Dir [] [''c.yaml''])
                     else if p = ''/artifacts''
                     then Some (Dir [(''run123'', Dir [(''checkpoints'', Dir [] [''last.ckpt''])] [])] [])
                     else None),
      file_text = (\<lambda>p. if p = ''/m/s/c.yaml'' then Some ''lr: 1''
                        else if p = ''/b.yaml'' then Some ''time: 1'' else None),
      expandvars = (\<lambda>t. t),
      yaml_load = (\<lambda>t. if t = ''lr: 1''
                        then Inr (VDict [(''lr'', VInt 1), (''logger'', VStr ''none'')])
                        else if t = ''time: 1'' then Inr (VDict [(''time'', VInt 1)])
                        else Inl YAMLError),
      ckpt_at = (\<lambda>p. if p = ''/artifacts/run123/checkpoints/last.ckpt''
                      then Inr (VDict [(''hyper_parameters'', VDict [(''lr'', VInt 2)])])
                      else Inl FileNotFoundError),
      slurm_init = (\<lambda>kw. Inr kw),
      sbatch = (\<lambda>s. Inr (VInt 124))\<rparr>"

definition example_project :: pydict where
  "example_project =
     [(''libraries'', VDict [(''model_library'', VStr ''/m''), (''artifact_library'', VStr ''/artifacts'')]),
      (''logger'', VStr ''wandb''),
      (''serial'', VBool True),
      (''custom_batch_setup'', VList [VStr ''module load x'']),
      (''command_line_setup'', VList [])]"

definition example_stage :: pydict where
  "example_stage =
     [(''set'', VStr ''s''), (''config'', VStr ''c.yaml''),
      (''override'', VDict [(''lr'', VInt 3)])]"

section \<open>Properties of dictionaries\<close>

lemma dict_set_fresh: "k \<notin> set (map fst d) \<Longrightarrow> dict_set d k v = d @ [(k, v)]"
  by (induction d) auto

lemma dict_update_fresh:
  "distinct (map fst (d @ other)) \<Longrightarrow> dict_update d other = d @ other"
proof (induction other arbitrary: d)
  case Nil
  then show ?case by (simp add: dict_update_def)
next
  case (Cons p other)
  obtain k v where p: "p = (k, v)" by (cases p)
  from Cons.prems p have fresh: "k \<notin> set (map fst d)" by auto
  from Cons.prems p have "distinct (map fst ((d @ [(k, v)]) @ other))" by auto
  then have "dict_update (d @ [(k, v)]) other = (d @ [(k, v)]) @ other" by (rule Cons.IH)
  with fresh p show ?case by (simp add: dict_update_def dict_set_fresh)
qed

lemma dict_of_pairs_wf: "wf_dict pairs \<Longrightarrow> dict_of_pairs pairs = pairs"
  using dict_update_fresh [of "[]" pairs] by (simp add: dict_of_pairs_def wf_dict_def)

lemma dict_update_nonempty: "other \<noteq> [] \<or> d \<noteq> [] \<Longrightarrow> dict_update d other \<noteq> []"
proof (induction other arbitrary: d)
  case Nil then show ?case by (simp add: dict_update_def)
next
  case (Cons p other)
  have "dict_set d (fst p) (snd p) \<noteq> []" by (cases d) auto
  then have "dict_update (dict_set d (fst p) (snd p)) other \<noteq> []" using Cons.IH by blast
  then show ?case by (simp add: dict_update_def case_prod_beta)
qed

section \<open>Properties of the sweep expansion\<close>

lemma length_itertools_product:
  "t \<in> set (itertools_product xss) \<Longrightarrow> length t = length xss"
  by (induction xss arbitrary: t) auto

lemma combo_config_nonempty:
  "config \<noteq> [] \<Longrightarrow> \<exists>runs. combo_config config = Inr runs"
  using dict_update_nonempty [of "map (\<lambda>(k, v). (k, sweep_axis v)) config" "[]"]
  by (simp add: combo_config_def bindE_def unpack_columns_def dict_of_pairs_def Let_def)

lemma wf_total_list:
  "wf_dict config \<Longrightarrow> wf_dict (map (\<lambda>(k, v). (k, sweep_axis v)) config)"
  by (simp add: wf_dict_def comp_def case_prod_beta)

lemma zip_keys_wf:
  "wf_dict config \<Longrightarrow> t \<in> set (itertools_product (map (\<lambda>p. sweep_axis (snd p)) config)) \<Longrightarrow>
   dict_of_pairs (zip (map fst config) t) = zip (map fst config) t"
  by (rule dict_of_pairs_wf) (auto simp: wf_dict_def dest!: length_itertools_product)

lemma combo_config_zip:
  assumes "config \<noteq> []" and "wf_dict config"
  shows "combo_config config =
    Inr (map (zip (map fst config)) (itertools_product (map (\<lambda>p. sweep_axis (snd p)) config)))"
proof -
  let ?items = "map (\<lambda>(k, v). (k, sweep_axis v)) config"
  have items: "dict_of_pairs ?items = ?items"
    using assms(2) by (intro dict_of_pairs_wf wf_total_list)
  have cols: "unpack_columns ?items =
      Inr (map fst config, map (\<lambda>p. sweep_axis (snd p)) config)"
    using assms(1) by (simp add: unpack_columns_def comp_def case_prod_beta)
  show ?thesis
    unfolding combo_config_def Let_def items cols bindE_def
    using zip_keys_wf [OF assms(2)] by simp
qed

lemma zip_product_spec:
  "map (zip (map fst config)) (itertools_product (map (\<lambda>p. sweep_axis (snd p)) config))
     = spec_expand config"
proof (induction config)
  case Nil
  show ?case by simp
next
  case (Cons p rest)
  obtain k v where p: "p = (k, v)" by (cases p)
  have "map (\<lambda>t. (k, x) # zip (map fst rest) t)
          (itertools_product (map (\<lambda>p. sweep_axis (snd p)) rest))
        = map (\<lambda>rc. (k, x) # rc) (spec_expand rest)" for x
    using Cons.IH [symmetric] by (simp add: comp_def)
  then show ?case by (simp add: p map_concat comp_def)
qed

lemma length_spec_expand:
  "length (spec_expand config) = prod_list (map (\<lambda>p. length (sweep_axis (snd p))) config)"
proof (induction config)
  case Nil
  show ?case by simp
next
  case (Cons p rest)
  obtain k v where p: "p = (k, v)" by (cases p)
  show ?case using Cons.IH by (simp add: p length_concat comp_def sum_list_triv)
qed

lemma set_spec_expand: "rc \<in> set (spec_expand config) \<longleftrightarrow> drawn_from rc config"
proof (induction config arbitrary: rc)
  case Nil
  show ?case by (simp add: drawn_from_def)
next
  case (Cons p rest)
  obtain k v where p: "p = (k, v)" by (cases p)
  show ?case
    using Cons.IH by (cases rc) (auto simp: p drawn_from_def)
qed

lemma drawn_from_keys: "drawn_from rc config \<Longrightarrow> map fst rc = map fst config"
  unfolding drawn_from_def by (induction rule: list_all2_induct) auto


lemma itertools_product_empty_axis: "[] \<in> set xss \<Longrightarrow> itertools_product xss = []"
  by (induction xss) auto

text \<open>
  C9. On the empty configuration \<open>combo_config\<close> raises: the transposition of no
  items cannot be unpacked into keys and values (\<open>ValueError\<close>). On every non-empty
  configuration it returns a list of dictionaries.
\<close>

theorem combo_config_empty_raises:
  "combo_config [] = Inl ValueError \<and>
   (config \<noteq> [] \<longrightarrow> (\<exists>runs. combo_config config = Inr runs))"
proof
  show "combo_config [] = Inl ValueError"
    by (simp add: combo_config_def dict_of_pairs_def dict_update_def unpack_columns_def bindE_def)
  show "config \<noteq> [] \<longrightarrow> (\<exists>runs. combo_config config = Inr runs)"
    by (simp add: combo_config_nonempty)
qed

text \<open>C9, at a configuration of one key.\<close>

theorem combo_config_empty_raises_witness:
  "[(''a'', VInt 1)] \<noteq> [] \<and> (\<exists>runs. combo_config [(''a'', VInt 1)] = Inr runs)"
  using combo_config_empty_raises [of "[(''a'', VInt 1)]"] by simp

text \<open>
  C7. A configuration in which some key holds the empty list expands to no run
  configuration at all, and \<open>combo_config\<close> returns the empty list without raising.
\<close>

theorem combo_config_empty_axis:
  assumes "wf_dict config" and "(k, VList []) \<in> set config"
  shows "combo_config config = Inr []"
proof -
  from assms(2) have ne: "config \<noteq> []" by auto
  from assms(2) have "(\<lambda>p. sweep_axis (snd p)) (k, VList []) \<in> (\<lambda>p. sweep_axis (snd p)) ` set config"
    by (rule imageI)
  then have "[] \<in> set (map (\<lambda>p. sweep_axis (snd p)) config)"
    by (simp add: sweep_axis_def)
  then have "itertools_product (map (\<lambda>p. sweep_axis (snd p)) config) = []"
    by (rule itertools_product_empty_axis)
  with combo_config_zip [OF ne assms(1)] show ?thesis by simp
qed

text \<open>C7, at \<open>{"a": [], "b": 3}\<close>.\<close>

theorem combo_config_empty_axis_witness:
  "wf_dict [(''a'', VList []), (''b'', VInt 3)] \<and>
   (''a'', VList []) \<in> set [(''a'', VList []), (''b'', VInt 3)] \<and>
   combo_config [(''a'', VList []), (''b'', VInt 3)] = Inr []"
proof -
  have w: "wf_dict [(''a'', VList []), (''b'', VInt 3)]" by (simp add: wf_dict_def)
  have m: "(''a'', VList []) \<in> set [(''a'', VList []), (''b'', VInt 3)]" by simp
  from combo_config_empty_axis [OF w m] w m show ?thesis by blast
qed

text \<open>
  C2 as it is stated, for every configuration, fails at the empty one: the product over
  no axes has one tuple, the empty one, so the sweep of the specification is \<open>[{}]\<close>,
  and \<open>combo_config\<close> raises instead.
\<close>

theorem combo_config_every_mapping_counterexample:
  "combo_config [] \<noteq> Inr (spec_expand [])"
  by (simp add: combo_config_def dict_of_pairs_def dict_update_def unpack_columns_def bindE_def)

text \<open>
  C2, for the non-empty configurations. A value that is a list is its own axis and any
  other value the axis of that one value. \<open>combo_config\<close> returns the sweep of the
  specification: one run configuration per tuple of the product, so as many as the
  product of the lengths of the axes; the run configurations are exactly the choices of
  one value per key, each with all the keys in their original order; the first key
  varies slowest and the values of a key come in their listed order. In particular
  \<open>{"a": [1, 2], "b": 3}\<close> gives \<open>[{a: 1, b: 3}, {a: 2, b: 3}]\<close>.
\<close>

theorem combo_config_cartesian:
  "(config \<noteq> [] \<and> wf_dict config \<longrightarrow>
      combo_config config = Inr (spec_expand config) \<and>
      length (spec_expand config) = prod_list (map (\<lambda>p. length (sweep_axis (snd p))) config) \<and>
      (\<forall>rc. rc \<in> set (spec_expand config) \<longleftrightarrow> drawn_from rc config) \<and>
      (\<forall>rc \<in> set (spec_expand config). map fst rc = map fst config)) \<and>
   sweep_axis (VList xs) = xs \<and>
   ((\<forall>ys. v \<noteq> VList ys) \<longrightarrow> sweep_axis v = [v]) \<and>
   combo_config [(''a'', VList [VInt 1, VInt 2]), (''b'', VInt 3)]
     = Inr [[(''a'', VInt 1), (''b'', VInt 3)], [(''a'', VInt 2), (''b'', VInt 3)]]"
proof (intro conjI impI)
  assume a: "config \<noteq> [] \<and> wf_dict config"
  then show "combo_config config = Inr (spec_expand config)"
    using combo_config_zip [of config] by (simp add: zip_product_spec)
  show "length (spec_expand config) = prod_list (map (\<lambda>p. length (sweep_axis (snd p))) config)"
    by (rule length_spec_expand)
  show "\<forall>rc. rc \<in> set (spec_expand config) \<longleftrightarrow> drawn_from rc config"
    by (simp add: set_spec_expand)
  show "\<forall>rc \<in> set (spec_expand config). map fst rc = map fst config"
    by (simp add: set_spec_expand drawn_from_keys)
next
  show "sweep_axis (VList xs) = xs" by (simp add: sweep_axis_def)
  show "(\<forall>ys. v \<noteq> VList ys) \<Longrightarrow> sweep_axis v = [v]"
    by (cases v) (simp_all add: sweep_axis_def)
  have w: "wf_dict [(''a'', VList [VInt 1, VInt 2]), (''b'', VInt 3)]" by (simp add: wf_dict_def)
  show "combo_config [(''a'', VList [VInt 1, VInt 2]), (''b'', VInt 3)]
     = Inr [[(''a'', VInt 1), (''b'', VInt 3)], [(''a'', VInt 2), (''b'', VInt 3)]]"
    using combo_config_zip [OF _ w] by (simp add: sweep_axis_def)
qed

text \<open>C2, at a configuration of two axes of two values and one scalar.\<close>

theorem combo_config_cartesian_witness:
  "[(''lr'', VList [VInt 1, VInt 2]), (''hidden'', VList [VInt 8, VInt 9]), (''seed'', VInt 0)] \<noteq> [] \<and>
   wf_dict [(''lr'', VList [VInt 1, VInt 2]), (''hidden'', VList [VInt 8, VInt 9]), (''seed'', VInt 0)] \<and>
   combo_config [(''lr'', VList [VInt 1, VInt 2]), (''hidden'', VList [VInt 8, VInt 9]), (''seed'', VInt 0)]
     = Inr [[(''lr'', VInt 1), (''hidden'', VInt 8), (''seed'', VInt 0)],
            [(''lr'', VInt 1), (''hidden'', VInt 9), (''seed'', VInt 0)],
            [(''lr'', VInt 2), (''hidden'', VInt 8), (''seed'', VInt 0)],
            [(''lr'', VInt 2), (''hidden'', VInt 9), (''seed'', VInt 0)]] \<and>
   sweep_axis (VList [VInt 1, VInt 2]) = [VInt 1, VInt 2] \<and>
   (\<forall>ys. VInt 0 \<noteq> VList ys) \<and> sweep_axis (VInt 0) = [VInt 0]"
  using combo_config_cartesian
    [of "[(''lr'', VList [VInt 1, VInt 2]), (''hidden'', VList [VInt 8, VInt 9]), (''seed'', VInt 0)]"
        "[VInt 1, VInt 2]" "VInt 0"]
  by (simp add: wf_dict_def sweep_axis_def)

section \<open>Properties of the argument serialisation\<close>

lemma collapse_leaf: "is_leaf v \<Longrightarrow> collapse v = [v]"
  by (cases v) simp_all

lemma collapse_flat: "\<forall>x \<in> set xs. is_leaf x \<Longrightarrow> collapse (VList xs) = xs"
  by (induction xs) (simp_all add: collapse_leaf)

lemma arg_leaves_by_key:
  "arg_leaves config = concat (map (\<lambda>(k, v). VStr (''--'' @ k) # collapse v) config)"
  unfolding arg_leaves_def by (induction config) (simp_all add: case_prod_beta)

lemma arg_tokens_by_key:
  "arg_tokens B config =
     concat (map (\<lambda>(k, v). (''--'' @ k) # map (py_str B) (collapse v)) config)"
  unfolding arg_tokens_def arg_leaves_by_key
  by (induction config) (simp_all add: case_prod_beta)

text \<open>
  C5 as it is stated fails where a value nests: the list \<open>[[2, 3]]\<close> has one element
  and gives two tokens, and a mapping, which is not a list, gives one token per key.
\<close>

theorem dict_to_args_one_token_counterexample:
  "arg_leaves [(''y'', VList [VList [VInt 2, VInt 3]])] = [VStr ''--y'', VInt 2, VInt 3] \<and>
   spec_arg_leaves [(''y'', VList [VList [VInt 2, VInt 3]])] = [VStr ''--y'', VList [VInt 2, VInt 3]] \<and>
   arg_leaves [(''override'', VDict [(''lr'', VInt 3), (''wd'', VInt 0)])]
     = [VStr ''--override'', VStr ''lr'', VStr ''wd''] \<and>
   spec_arg_leaves [(''override'', VDict [(''lr'', VInt 3), (''wd'', VInt 0)])]
     = [VStr ''--override'', VDict [(''lr'', VInt 3), (''wd'', VInt 0)]]"
  by (simp add: arg_leaves_def spec_arg_leaves_def)

text \<open>
  C5, with the flattening said. \<open>dict_to_args\<close> joins with single spaces the tokens of
  the keys in their order; a key gives \<open>--key\<close> and then the text of each leaf of its
  value, where a list is opened at every depth and a mapping gives its keys. So a list
  that holds no list and no mapping gives one token per element, and a value that is
  neither a list nor a mapping gives one token. In particular \<open>{"x": 1, "y": [2, 3]}\<close>
  is serialised as \<open>--x 1 --y 2 3\<close>.
\<close>

theorem dict_to_args_tokens:
  "dict_to_args B config = str_join '' '' (arg_tokens B config) \<and>
   arg_tokens B config =
     concat (map (\<lambda>(k, v). (''--'' @ k) # map (py_str B) (collapse v)) config) \<and>
   ((\<forall>x \<in> set xs. is_leaf x) \<longrightarrow> collapse (VList xs) = xs) \<and>
   (is_leaf v \<longrightarrow> collapse v = [v]) \<and>
   collapse (VDict d) = map (\<lambda>p. VStr (fst p)) d \<and>
   collapse (VList ys) = concat (map collapse ys) \<and>
   dict_to_args B [(''x'', VInt 1), (''y'', VList [VInt 2, VInt 3])] = ''--x 1 --y 2 3''"
proof (intro conjI impI)
  show "dict_to_args B config = str_join '' '' (arg_tokens B config)"
    by (simp add: dict_to_args_def)
  show "arg_tokens B config =
     concat (map (\<lambda>(k, v). (''--'' @ k) # map (py_str B) (collapse v)) config)"
    by (rule arg_tokens_by_key)
  show "\<forall>x \<in> set xs. is_leaf x \<Longrightarrow> collapse (VList xs) = xs"
    by (rule collapse_flat)
  show "is_leaf v \<Longrightarrow> collapse v = [v]"
    by (rule collapse_leaf)
  show "collapse (VDict d) = map (\<lambda>p. VStr (fst p)) d" by simp
  show "collapse (VList ys) = concat (map collapse ys)" by simp
  show "dict_to_args B [(''x'', VInt 1), (''y'', VList [VInt 2, VInt 3])] = ''--x 1 --y 2 3''"
    by (simp add: dict_to_args_def arg_tokens_def arg_leaves_def int_str_def digit_char_def)
qed

text \<open>C5, at \<open>{"epochs": [10, 20], "name": "gnn"}\<close>.\<close>

theorem dict_to_args_tokens_witness:
  "is_leaf (VInt 10) \<and> is_leaf (VInt 20) \<and> is_leaf (VStr ''gnn'') \<and>
   collapse (VList [VInt 10, VInt 20]) = [VInt 10, VInt 20] \<and>
   collapse (VStr ''gnn'') = [VStr ''gnn''] \<and>
   arg_tokens example_builtins [(''epochs'', VList [VInt 10, VInt 20]), (''name'', VStr ''gnn'')]
     = [''--epochs'', ''10'', ''20'', ''--name'', ''gnn'']"
proof -
  have l: "\<forall>x \<in> set [VInt 10, VInt 20]. is_leaf x" by simp
  have s: "is_leaf (VStr ''gnn'')" by simp
  note t = dict_to_args_tokens [of example_builtins
      "[(''epochs'', VList [VInt 10, VInt 20]), (''name'', VStr ''gnn'')]"
      "[VInt 10, VInt 20]" "VStr ''gnn''"]
  from t l have c1: "collapse (VList [VInt 10, VInt 20]) = [VInt 10, VInt 20]" by blast
  from t s have c2: "collapse (VStr ''gnn'') = [VStr ''gnn'']" by blast
  from t have "arg_tokens example_builtins [(''epochs'', VList [VInt 10, VInt 20]), (''name'', VStr ''gnn'')]
     = concat (map (\<lambda>(k, v). (''--'' @ k) # map (py_str example_builtins) (collapse v))
         [(''epochs'', VList [VInt 10, VInt 20]), (''name'', VStr ''gnn'')])" by blast
  then have c3: "arg_tokens example_builtins [(''epochs'', VList [VInt 10, VInt 20]), (''name'', VStr ''gnn'')]
     = [''--epochs'', ''10'', ''20'', ''--name'', ''gnn'']"
    by (simp add: int_str_def digit_char_def)
  have "is_leaf (VInt 10)" and "is_leaf (VInt 20)" by simp_all
  with s c1 c2 c3 show ?thesis by blast
qed

section \<open>Properties of the type estimation\<close>

lemma is_listD: "\<not> is_list v \<Longrightarrow> v \<noteq> VList xs"
  by (cases v) simp_all

lemma try_casters_scalar:
  "\<not> is_list (try_casters [nullify, boolify, py_int B, py_float B] s)"
  by (simp add: nullify_def boolify_def py_int_def py_float_def Let_def split: option.splits)

lemma estimateType_list:
  "length xs \<noteq> 1 \<Longrightarrow> estimateType B (VList xs) = VList (map (estimateType B) xs)"
proof (cases xs)
  case Nil
  then show ?thesis by simp
next
  case (Cons a ys)
  assume "length xs \<noteq> 1"
  with Cons obtain b zs where "ys = b # zs" by (cases ys) auto
  with Cons show ?thesis by simp
qed

lemma estimateType_scalar: "\<not> is_list v \<Longrightarrow> \<not> is_list (estimateType B v)"
  by (cases v) (simp_all add: try_casters_scalar del: try_casters.simps)

lemma estimateType_never_singleton: "estimateType B v \<noteq> VList [y]"
proof (induction B v arbitrary: y rule: estimateType.induct)
  case (1 B x)
  then show ?case by simp
qed (simp_all add: try_casters_scalar [THEN is_listD] del: try_casters.simps)

lemma set_dict_set: "set (dict_set d k v) \<subseteq> insert (k, v) (set d)"
  by (induction d) auto

lemma set_dict_update: "set (dict_update d other) \<subseteq> set d \<union> set other"
proof (induction other arbitrary: d)
  case Nil
  show ?case by (simp add: dict_update_def)
next
  case (Cons p other)
  obtain k v where p: "p = (k, v)" by (cases p)
  have "set (dict_update (dict_set d k v) other) \<subseteq> set (dict_set d k v) \<union> set other"
    by (rule Cons.IH)
  also have "\<dots> \<subseteq> set d \<union> set (p # other)"
    using set_dict_set [of d k v] by (auto simp: p)
  finally show ?case by (simp add: p dict_update_def)
qed

text \<open>
  C10 as it is stated fails at a list whose one element is a longer list: the list
  \<open>[["1", "2"]]\<close> has exactly one element and is estimated as the list \<open>[1, 2]\<close>.
\<close>

theorem estimateType_singleton_counterexample:
  "length [VList [VStr ''1'', VStr ''2'']] = 1 \<and>
   estimateType example_builtins (VList [VList [VStr ''1'', VStr ''2'']]) = VList [VInt 1, VInt 2]"
  by (simp add: nullify_def boolify_def py_int_def strip_def is_space_def is_digit_def
        digits_value_def digit_val_def too_many_digits_def)

text \<open>
  C10, with the nested case said. The estimate of a list of exactly one element is the
  estimate of that element (so \<open>["5"]\<close> gives the integer 5); a list of any other length
  gives the list of the estimates of its elements; a value that is not a list never
  gives a list. Hence the estimate of a one-element list is a list only when its element
  is a list, and no estimate at all is a list of one element: the function that
  \<open>autocast\<close> decorates is called with no one-element list among its positional or
  keyword arguments.
\<close>

theorem estimateType_singleton_list:
  "estimateType B (VList [x]) = estimateType B x \<and>
   estimateType B (VList [VStr ''5'']) = VInt 5 \<and>
   (length xs \<noteq> 1 \<longrightarrow> estimateType B (VList xs) = VList (map (estimateType B) xs)) \<and>
   (\<not> is_list v \<longrightarrow> \<not> is_list (estimateType B v)) \<and>
   (\<forall>y. estimateType B v \<noteq> VList [y]) \<and>
   (\<exists>cp dp. autocast B dFxn c d = dFxn cp dp \<and> length cp = length c \<and>
      (\<forall>a \<in> set cp. \<forall>y. a \<noteq> VList [y]) \<and> (\<forall>p \<in> set dp. \<forall>y. snd p \<noteq> VList [y]))"
proof (intro conjI impI allI)
  show "estimateType B (VList [x]) = estimateType B x" by simp
  show "estimateType B (VList [VStr ''5'']) = VInt 5"
    by (simp add: nullify_def boolify_def py_int_def strip_def is_space_def is_digit_def
        digits_value_def digit_val_def too_many_digits_def)
  show "length xs \<noteq> 1 \<Longrightarrow> estimateType B (VList xs) = VList (map (estimateType B) xs)"
    by (rule estimateType_list)
  show "\<not> is_list v \<Longrightarrow> \<not> is_list (estimateType B v)"
    by (rule estimateType_scalar)
  show "estimateType B v \<noteq> VList [y]" for y
    by (rule estimateType_never_singleton)
  let ?cp = "map (estimateType B) c"
  let ?dp = "dict_of_pairs (map (\<lambda>(i, j). (i, estimateType B j)) d)"
  have "set ?dp \<subseteq> set (map (\<lambda>(i, j). (i, estimateType B j)) d)"
    using set_dict_update [of "[]" "map (\<lambda>(i, j). (i, estimateType B j)) d"]
    by (simp only: dict_of_pairs_def set_simps Un_empty_left)
  then have "\<forall>p \<in> set ?dp. \<forall>y. snd p \<noteq> VList [y]"
    by (auto simp: estimateType_never_singleton)
  moreover have "\<forall>a \<in> set ?cp. \<forall>y. a \<noteq> VList [y]"
    by (auto simp: estimateType_never_singleton)
  moreover have "autocast B dFxn c d = dFxn ?cp ?dp" by (simp add: autocast_def)
  ultimately show "\<exists>cp dp. autocast B dFxn c d = dFxn cp dp \<and> length cp = length c \<and>
      (\<forall>a \<in> set cp. \<forall>y. a \<noteq> VList [y]) \<and> (\<forall>p \<in> set dp. \<forall>y. snd p \<noteq> VList [y])"
    by (intro exI [of _ ?cp] exI [of _ ?dp]) simp
qed

text \<open>C10, at the call \<open>f(["5"], ["a", "b"], n=["7"])\<close> of a decorated function.\<close>

theorem estimateType_singleton_list_witness:
  "length [VStr ''a'', VStr ''b''] \<noteq> 1 \<and> \<not> is_list (VStr ''a'') \<and>
   estimateType example_builtins (VList [VStr ''a'', VStr ''b''])
     = VList (map (estimateType example_builtins) [VStr ''a'', VStr ''b'']) \<and>
   \<not> is_list (estimateType example_builtins (VStr ''a'')) \<and>
   autocast example_builtins (\<lambda>cp dp. (cp, dp))
       [VList [VStr ''5''], VList [VStr ''a'', VStr ''b'']] [(''n'', VList [VStr ''7''])]
     = ([VInt 5, VList [VStr ''a'', VStr ''b'']], [(''n'', VInt 7)])"
proof -
  note t = estimateType_singleton_list [of example_builtins "VStr ''5''" "[VStr ''a'', VStr ''b'']"
      "VStr ''a''" "\<lambda>cp dp. (cp, dp)" "[VList [VStr ''5''], VList [VStr ''a'', VStr ''b'']]"
      "[(''n'', VList [VStr ''7''])]"]
  have l: "length [VStr ''a'', VStr ''b''] \<noteq> 1" by simp
  have s: "\<not> is_list (VStr ''a'')" by simp
  from t l have e: "estimateType example_builtins (VList [VStr ''a'', VStr ''b''])
     = VList (map (estimateType example_builtins) [VStr ''a'', VStr ''b''])" by blast
  from t s have n: "\<not> is_list (estimateType example_builtins (VStr ''a''))" by blast
  have a: "autocast example_builtins (\<lambda>cp dp. (cp, dp))
       [VList [VStr ''5''], VList [VStr ''a'', VStr ''b'']] [(''n'', VList [VStr ''7''])]
     = ([VInt 5, VList [VStr ''a'', VStr ''b'']], [(''n'', VInt 7)])"
    by (simp add: autocast_def dict_of_pairs_def dict_update_def nullify_def boolify_def
          py_int_def py_float_def example_builtins_def strip_def is_space_def is_digit_def
          digits_value_def digit_val_def too_many_digits_def)
  from l s e n a show ?thesis by blast
qed

section \<open>Properties of the checkpoint lookup\<close>

lemma find_checkpoint_loop_find:
  "find_checkpoint_loop run_id ws =
     (case find (\<lambda>(root_dir, dirs, files). run_id \<in> set dirs) ws of
        None \<Rightarrow> None
      | Some (root_dir, dirs, files) \<Rightarrow> Some (os_path_join root_dir [run_id, ''checkpoints/last.ckpt'']))"
  by (induction run_id ws rule: find_checkpoint_loop.induct) simp_all

lemma find_checkpoint_loop_None:
  "find_checkpoint_loop run_id ws = None \<longleftrightarrow> (\<forall>(root_dir, dirs, files) \<in> set ws. run_id \<notin> set dirs)"
  by (induction run_id ws rule: find_checkpoint_loop.induct) simp_all

lemma find_checkpoint_loop_append:
  "find_checkpoint_loop run_id (ws @ vs) =
     (case find_checkpoint_loop run_id ws of
        None \<Rightarrow> find_checkpoint_loop run_id vs
      | Some p \<Rightarrow> Some p)"
  by (induction run_id ws rule: find_checkpoint_loop.induct) simp_all

lemma find_checkpoint_loop_concat:
  "length wss = length vss \<Longrightarrow>
   \<forall>i < length wss. find_checkpoint_loop run_id (wss ! i) = find_checkpoint_loop run_id (vss ! i) \<Longrightarrow>
   find_checkpoint_loop run_id (concat wss) = find_checkpoint_loop run_id (concat vss)"
proof (induction wss vss rule: list_induct2)
  case Nil
  show ?case by simp
next
  case (Cons ws wss vs vss)
  from Cons.prems have h: "find_checkpoint_loop run_id ws = find_checkpoint_loop run_id vs"
    by auto
  have "\<forall>i < length wss. find_checkpoint_loop run_id (wss ! i) = find_checkpoint_loop run_id (vss ! i)"
  proof (intro allI impI)
    fix i assume "i < length wss"
    then have "Suc i < length (ws # wss)" by simp
    with Cons.prems have "find_checkpoint_loop run_id ((ws # wss) ! Suc i)
        = find_checkpoint_loop run_id ((vs # vss) ! Suc i)"
      by blast
    then show "find_checkpoint_loop run_id (wss ! i) = find_checkpoint_loop run_id (vss ! i)"
      by simp
  qed
  then have "find_checkpoint_loop run_id (concat wss) = find_checkpoint_loop run_id (concat vss)"
    by (rule Cons.IH)
  with h show ?case by (simp add: find_checkpoint_loop_append split: option.splits)
qed

lemma walk_without_files:
  "find_checkpoint_loop run_id (walk topdir (without_files t)) = find_checkpoint_loop run_id (walk topdir t)"
proof (induction topdir t rule: walk.induct)
  case (1 topdir subs files)
  have "find_checkpoint_loop run_id
          (concat (map (\<lambda>p. walk (os_path_join topdir [fst p]) (snd p))
                     (map (\<lambda>p. (fst p, without_files (snd p))) subs)))
        = find_checkpoint_loop run_id
          (concat (map (\<lambda>p. walk (os_path_join topdir [fst p]) (snd p)) subs))"
    by (rule find_checkpoint_loop_concat) (simp_all add: 1)
  then show ?case by (simp add: comp_def)
qed

lemma join_checkpoint_path:
  "run_id \<noteq> [] \<Longrightarrow> last run_id \<noteq> CHR ''/'' \<Longrightarrow>
   os_path_join root_dir [run_id, ''checkpoints/last.ckpt'']
     = os_path_join root_dir [run_id] @ ''/checkpoints/last.ckpt''"
  by (simp add: os_path_join_def join_step_def)

text \<open>
  C8. \<open>find_checkpoint\<close> returns the path built on the first triple of the walk, in
  the order of the walk, whose directory names hold \<open>run_id\<close>, and \<open>None\<close> when there
  is none; the path is the matched directory followed by \<open>/checkpoints/last.ckpt\<close>. The
  files play no part: the answer on a tree is the answer on the tree with every file
  removed. In particular, with a directory \<open>run123\<close> in \<open>/artifacts\<close>, whatever it
  holds, the answer is \<open>/artifacts/run123/checkpoints/last.ckpt\<close>.
\<close>

theorem find_checkpoint_first_match:
  "find_checkpoint E run_id path =
     (case find (\<lambda>(root_dir, dirs, files). run_id \<in> set dirs) (os_walk E path) of
        None \<Rightarrow> None
      | Some (root_dir, dirs, files) \<Rightarrow>
          Some (os_path_join root_dir [run_id, ''checkpoints/last.ckpt''])) \<and>
   (find_checkpoint E run_id path = None \<longleftrightarrow>
      (\<forall>(root_dir, dirs, files) \<in> set (os_walk E path). run_id \<notin> set dirs)) \<and>
   (run_id \<noteq> [] \<and> last run_id \<noteq> CHR ''/'' \<longrightarrow>
      os_path_join root_dir [run_id, ''checkpoints/last.ckpt'']
        = os_path_join root_dir [run_id] @ ''/checkpoints/last.ckpt'') \<and>
   (dir_at E path = Some t \<longrightarrow>
      find_checkpoint (E\<lparr>dir_at := (dir_at E)(path \<mapsto> without_files t)\<rparr>) run_id path
        = find_checkpoint E run_id path) \<and>
   (dir_at E ''/artifacts'' = Some (Dir subs files) \<and> ''run123'' \<in> set (map fst subs) \<longrightarrow>
      find_checkpoint E ''run123'' ''/artifacts'' = Some ''/artifacts/run123/checkpoints/last.ckpt'')"
proof (intro conjI impI)
  show "find_checkpoint E run_id path =
     (case find (\<lambda>(root_dir, dirs, files). run_id \<in> set dirs) (os_walk E path) of
        None \<Rightarrow> None
      | Some (root_dir, dirs, files) \<Rightarrow>
          Some (os_path_join root_dir [run_id, ''checkpoints/last.ckpt'']))"
    unfolding find_checkpoint_def by (rule find_checkpoint_loop_find)
  show "find_checkpoint E run_id path = None \<longleftrightarrow>
      (\<forall>(root_dir, dirs, files) \<in> set (os_walk E path). run_id \<notin> set dirs)"
    unfolding find_checkpoint_def by (rule find_checkpoint_loop_None)
  show "run_id \<noteq> [] \<and> last run_id \<noteq> CHR ''/'' \<Longrightarrow>
      os_path_join root_dir [run_id, ''checkpoints/last.ckpt'']
        = os_path_join root_dir [run_id] @ ''/checkpoints/last.ckpt''"
    by (simp add: join_checkpoint_path)
  show "dir_at E path = Some t \<Longrightarrow>
      find_checkpoint (E\<lparr>dir_at := (dir_at E)(path \<mapsto> without_files t)\<rparr>) run_id path
        = find_checkpoint E run_id path"
    by (simp add: find_checkpoint_def os_walk_def walk_without_files)
  show "dir_at E ''/artifacts'' = Some (Dir subs files) \<and> ''run123'' \<in> set (map fst subs) \<Longrightarrow>
      find_checkpoint E ''run123'' ''/artifacts'' = Some ''/artifacts/run123/checkpoints/last.ckpt''"
    by (simp add: find_checkpoint_def os_walk_def os_path_join_def join_step_def)
qed

text \<open>
  C8, at an artifact library where the run lies one level down and holds nothing: the
  walk passes \<open>/artifacts\<close> and \<open>/artifacts/old\<close> and matches in \<open>/artifacts/new\<close>.
\<close>

theorem find_checkpoint_first_match_witness:
  "''run7'' \<noteq> [] \<and> last ''run7'' \<noteq> CHR ''/'' \<and>
   dir_at (example_env\<lparr>dir_at := (\<lambda>p. if p = ''/artifacts''
       then Some (Dir [(''old'', Dir [] [''log'']), (''new'', Dir [(''run7'', Dir [] [])] [])] [])
       else None)\<rparr>) ''/artifacts''
     = Some (Dir [(''old'', Dir [] [''log'']), (''new'', Dir [(''run7'', Dir [] [])] [])] []) \<and>
   find_checkpoint (example_env\<lparr>dir_at := (\<lambda>p. if p = ''/artifacts''
       then Some (Dir [(''old'', Dir [] [''log'']), (''new'', Dir [(''run7'', Dir [] [])] [])] [])
       else None)\<rparr>) ''run7'' ''/artifacts''
     = Some ''/artifacts/new/run7/checkpoints/last.ckpt'' \<and>
   find_checkpoint (example_env\<lparr>dir_at := (\<lambda>p. if p = ''/artifacts''
       then Some (Dir [(''old'', Dir [] [''log'']), (''new'', Dir [(''run7'', Dir [] [])] [])] [])
       else None)\<rparr>) ''run8'' ''/artifacts'' = None \<and>
   dir_at example_env ''/artifacts''
     = Some (Dir [(''run123'', Dir [(''checkpoints'', Dir [] [''last.ckpt''])] [])] []) \<and>
   ''run123'' \<in> set (map fst [(''run123'', Dir [(''checkpoints'', Dir [] [''last.ckpt''])] [])]) \<and>
   find_checkpoint example_env ''run123'' ''/artifacts''
     = Some ''/artifacts/run123/checkpoints/last.ckpt''"
proof -
  let ?t = "Dir [(''old'', Dir [] [''log'']), (''new'', Dir [(''run7'', Dir [] [])] [])] []"
  let ?E = "example_env\<lparr>dir_at := (\<lambda>p. if p = ''/artifacts'' then Some ?t else None)\<rparr>"
  have n: "''run7'' \<noteq> [] \<and> last ''run7'' \<noteq> CHR ''/''" by simp
  have d: "dir_at ?E ''/artifacts'' = Some ?t" by simp
  have w: "os_walk ?E ''/artifacts'' =
      [(''/artifacts'', [''old'', ''new''], []), (''/artifacts/old'', [], [''log'']),
       (''/artifacts/new'', [''run7''], []), (''/artifacts/new/run7'', [], [])]"
    by (simp add: os_walk_def os_path_join_def join_step_def)
  note t7 = find_checkpoint_first_match [of ?E "''run7''" "''/artifacts''" "''/artifacts/new''" ?t]
  from t7 have "find_checkpoint ?E ''run7'' ''/artifacts'' =
     (case find (\<lambda>(root_dir, dirs, files). ''run7'' \<in> set dirs) (os_walk ?E ''/artifacts'') of
        None \<Rightarrow> None
      | Some (root_dir, dirs, files) \<Rightarrow>
          Some (os_path_join root_dir [''run7'', ''checkpoints/last.ckpt'']))" by blast
  moreover from t7 n have "os_path_join ''/artifacts/new'' [''run7'', ''checkpoints/last.ckpt'']
        = os_path_join ''/artifacts/new'' [''run7''] @ ''/checkpoints/last.ckpt''" by blast
  ultimately have f7: "find_checkpoint ?E ''run7'' ''/artifacts''
      = Some ''/artifacts/new/run7/checkpoints/last.ckpt''"
    by (simp add: w os_path_join_def join_step_def)
  note t8 = find_checkpoint_first_match [of ?E "''run8''" "''/artifacts''"]
  have "\<forall>(root_dir, dirs, files) \<in> set (os_walk ?E ''/artifacts''). ''run8'' \<notin> set dirs"
    by (simp add: w)
  with t8 have f8: "find_checkpoint ?E ''run8'' ''/artifacts'' = None" by blast
  have d1: "dir_at example_env ''/artifacts''
     = Some (Dir [(''run123'', Dir [(''checkpoints'', Dir [] [''last.ckpt''])] [])] [])"
    by (simp add: example_env_def)
  have m1: "''run123'' \<in> set (map fst [(''run123'', Dir [(''checkpoints'', Dir [] [''last.ckpt''])] [])])"
    by simp
  from find_checkpoint_first_match [of example_env _ _ _ _
      "[(''run123'', Dir [(''checkpoints'', Dir [] [''last.ckpt''])] [])]" "[]"] d1 m1
  have f1: "find_checkpoint example_env ''run123'' ''/artifacts''
     = Some ''/artifacts/run123/checkpoints/last.ckpt''" by blast
  from n d f7 f8 d1 m1 f1 show ?thesis by blast
qed




section \<open>Properties of the configuration resolution\<close>

lemma bindE_Inr: "bindE m f = Inr y \<longleftrightarrow> (\<exists>x. m = Inr x \<and> f x = Inr y)"
  by (cases m) (simp_all add: bindE_def)

lemma map_of_dict_set: "map_of (dict_set d k v) = (map_of d)(k \<mapsto> v)"
  by (induction d) (auto simp: fun_eq_iff)

lemma map_of_dict_update:
  "wf_dict other \<Longrightarrow> map_of (dict_update d other) = map_of d ++ map_of other"
proof (induction other arbitrary: d)
  case Nil
  then show ?case by (simp add: dict_update_def)
next
  case (Cons p other)
  obtain k v where p: "p = (k, v)" by (cases p)
  from Cons.prems p have fresh: "map_of other k = None" and wf: "wf_dict other"
    by (auto simp: wf_dict_def map_of_eq_None_iff)
  have "map_of (dict_update (dict_set d k v) other) = map_of (dict_set d k v) ++ map_of other"
    using wf by (rule Cons.IH)
  also have "\<dots> = map_of d ++ map_of ((k, v) # other)"
    using fresh by (auto simp: map_of_dict_set fun_eq_iff map_add_def split: option.splits)
  finally have "map_of (dict_update (dict_set d k v) other) = map_of d ++ map_of ((k, v) # other)" .
  moreover have "dict_update d (p # other) = dict_update (dict_set d k v) other"
    by (simp add: p dict_update_def)
  ultimately show ?case by (simp only: p)
qed

lemma merge_layers_lookup:
  assumes "merge_layers stage project_config config = Inr merged"
    and "wf_dict stage"
    and "dict_get project_config ''libraries'' = Inr (VDict libs)" and "wf_dict libs"
    and "if dict_has stage ''override'' then dict_get stage ''override'' = Inr (VDict ov) else ov = []"
    and "wf_dict ov"
  shows "map_of merged = map_of config ++ map_of ov ++ map_of libs ++ map_of stage"
proof -
  have first: "(if dict_has stage ''override''
            then bindE (dict_get stage ''override'') (py_update config)
            else Inr config) = Inr (dict_update config ov)"
    using assms(5) by (auto simp: py_update_def dict_update_def bindE_def split: if_splits)
  from assms(1) have "merged = dict_update (dict_update (dict_update config ov) libs) stage"
    unfolding merge_layers_def first by (simp add: assms(3) py_update_def bindE_def)
  then show ?thesis
    by (simp add: map_of_dict_update assms)
qed

lemma inference_policy_eq:
  "inference_policy run_args merged =
     (case map_of run_args ''inference'' of
        None \<Rightarrow> Inr merged
      | Some i \<Rightarrow>
          if truthy i then Inr (dict_set merged ''inference'' (VBool True))
          else (case map_of run_args ''batch'' of
                  None \<Rightarrow> Inl AttributeError
                | Some b \<Rightarrow>
                    if truthy b then Inr merged
                    else Inr (dict_set merged ''inference'' (VBool False))))"
proof (cases "map_of run_args ''inference''")
  case None
  then have "\<not> dict_has run_args ''inference''"
    by (simp add: dict_has_def map_of_eq_None_iff)
  with None show ?thesis
    by (simp add: inference_policy_def inference_set_def inference_cleared_def bindE_def)
next
  case (Some i)
  then have has: "dict_has run_args ''inference''"
    by (auto simp: dict_has_def dest: map_of_SomeD intro: rev_image_eqI)
  show ?thesis
  proof (cases "truthy i")
    case True
    with Some has show ?thesis
      by (simp add: inference_policy_def inference_set_def getattr_def bindE_def)
  next
    case False
    with Some has show ?thesis
      by (cases "map_of run_args ''batch''")
         (simp_all add: inference_policy_def inference_set_def inference_cleared_def
            getattr_def bindE_def)
  qed
qed


lemma inference_policy_other_keys:
  assumes "inference_policy run_args merged = Inr cfg"
    and "k \<noteq> ''inference'' \<or> (inference_set run_args = Inr False \<and> inference_cleared run_args = Inr False)"
  shows "map_of cfg k = map_of merged k"
proof -
  from assms(1) have "cfg = merged \<or> (\<exists>b. cfg = dict_set merged ''inference'' (VBool b))"
    by (auto simp: inference_policy_def bindE_def split: sum.splits if_splits)
  moreover have "cfg = merged"
    if "inference_set run_args = Inr False \<and> inference_cleared run_args = Inr False"
    using assms(1) that by (simp add: inference_policy_def bindE_def)
  ultimately show ?thesis using assms(2) by (auto simp: map_of_dict_set)
qed

lemma setitem_Inr: "setitem v k x = Inr d \<longleftrightarrow> (\<exists>d0. v = VDict d0 \<and> d = dict_set d0 k x)"
  by (cases v) (auto simp: setitem_def)

lemma torch_load_Inr: "torch_load E p = Inr c \<Longrightarrow> \<exists>path. p = Some path"
  by (cases p) (simp_all add: torch_load_def)

lemma base_config_fresh:
  assumes "base_config E stage None project_config = Inr base"
  shows "map_of base ''resume_id'' = Some VNone \<and>
         (\<exists>logger. dict_get project_config ''logger'' = Inr logger \<and> map_of base ''logger'' = Some logger)"
  using assms
  by (auto simp: base_config_def bindE_Inr setitem_Inr map_of_dict_set)

lemma base_config_resumed:
  assumes "base_config E stage (Some run_id) project_config = Inr base"
  shows "\<exists>p. map_of base ''checkpoint_path'' = Some (VStr p)"
  using assms
  by (auto simp: base_config_def bindE_Inr setitem_Inr map_of_dict_set path_val_def
        dest!: torch_load_Inr)


lemmas run_defs = load_config_def base_config_def merge_layers_def inference_policy_def
  inference_set_def inference_cleared_def getattr_def dict_get_def dict_has_def subscript_def
  setitem_def as_path_def path_val_def read_file_def torch_load_def find_config_def
  find_checkpoint_def os_walk_def os_path_join_def join_step_def py_update_def dict_update_def
  example_env_def example_project_def example_stage_def bindE_def wf_dict_def

lemma load_config_steps:
  assumes "load_config E stage resume_id project_config run_args = Inr cfg"
  obtains base merged where
    "base_config E stage resume_id project_config = Inr base"
    "merge_layers stage project_config base = Inr merged"
    "inference_policy run_args merged = Inr cfg"
proof -
  from assms obtain base where
    b: "base_config E stage resume_id project_config = Inr base" and
    r: "bindE (merge_layers stage project_config base) (inference_policy run_args) = Inr cfg"
    unfolding load_config_def bindE_Inr by blast
  from r obtain merged where
    "merge_layers stage project_config base = Inr merged"
    "inference_policy run_args merged = Inr cfg"
    unfolding bindE_Inr by blast
  with b that show thesis by blast
qed

lemma load_config_assoc:
  "load_config E stage resume_id project_config run_args =
     bindE (bindE (base_config E stage resume_id project_config) (merge_layers stage project_config))
       (inference_policy run_args)"
  by (cases "base_config E stage resume_id project_config") (simp_all add: load_config_def bindE_def)

text \<open>
  C1 as it is stated, for each key of the returned configuration, fails at the key
  \<open>inference\<close>: the last layer that holds it here is the stage descriptor, which
  writes \<open>False\<close>, and the returned configuration holds \<open>True\<close>, written afterwards
  from the run arguments.
\<close>

theorem load_config_precedence_counterexample:
  "load_config example_env (example_stage @ [(''inference'', VBool False)]) None example_project
       [(''inference'', VBool True), (''batch'', VBool False)]
     = Inr [(''lr'', VInt 3), (''logger'', VStr ''wandb''), (''resume_id'', VNone),
            (''model_library'', VStr ''/m''), (''artifact_library'', VStr ''/artifacts''),
            (''set'', VStr ''s''), (''config'', VStr ''c.yaml''),
            (''override'', VDict [(''lr'', VInt 3)]), (''inference'', VBool True)] \<and>
   map_of (example_stage @ [(''inference'', VBool False)]) ''inference'' = Some (VBool False)"
  by (simp add: run_defs)

text \<open>
  C1, for the keys the inference flag leaves alone. Let the base configuration be the
  mapping read from the file, with \<open>logger\<close> then set from the project and
  \<open>resume_id\<close> set to \<open>None\<close>, or the hyper-parameters of the checkpoint, with
  \<open>checkpoint_path\<close> then set. Whenever \<open>load_config\<close> returns a configuration,
  every key other than \<open>inference\<close>, and \<open>inference\<close> too when the run arguments
  neither set nor clear it, has the value written by the last of the layers base
  configuration, override (empty when the stage has none), project libraries, stage
  descriptor that holds the key. A layer replaces the whole value of a key: nothing is
  merged inside a value.
\<close>

theorem load_config_precedence:
  assumes "load_config E stage resume_id project_config run_args = Inr cfg"
    and "wf_dict stage"
    and "dict_get project_config ''libraries'' = Inr (VDict libs)" and "wf_dict libs"
    and "if dict_has stage ''override'' then dict_get stage ''override'' = Inr (VDict ov) else ov = []"
    and "wf_dict ov"
  shows "\<exists>base. base_config E stage resume_id project_config = Inr base \<and>
     (resume_id = None \<longrightarrow> map_of base ''resume_id'' = Some VNone \<and>
        (\<exists>logger. dict_get project_config ''logger'' = Inr logger \<and>
           map_of base ''logger'' = Some logger)) \<and>
     (resume_id \<noteq> None \<longrightarrow> (\<exists>p. map_of base ''checkpoint_path'' = Some (VStr p))) \<and>
     (\<forall>k. k \<noteq> ''inference'' \<or>
            (inference_set run_args = Inr False \<and> inference_cleared run_args = Inr False) \<longrightarrow>
        map_of cfg k = last_writer [base, ov, libs, stage] k)"
proof -
  from assms(1) obtain base merged where
    base: "base_config E stage resume_id project_config = Inr base" and
    merged: "merge_layers stage project_config base = Inr merged" and
    policy: "inference_policy run_args merged = Inr cfg"
    by (rule load_config_steps)
  have layers: "map_of merged = map_of base ++ map_of ov ++ map_of libs ++ map_of stage"
    using merged assms(2-6) by (rule merge_layers_lookup)
  have keys: "\<forall>k. k \<noteq> ''inference'' \<or>
            (inference_set run_args = Inr False \<and> inference_cleared run_args = Inr False) \<longrightarrow>
        map_of cfg k = last_writer [base, ov, libs, stage] k"
  proof (intro allI impI)
    fix k
    assume "k \<noteq> ''inference'' \<or>
        (inference_set run_args = Inr False \<and> inference_cleared run_args = Inr False)"
    with policy have "map_of cfg k = map_of merged k"
      by (rule inference_policy_other_keys)
    then show "map_of cfg k = last_writer [base, ov, libs, stage] k"
      by (simp add: layers map_add_def split: option.splits)
  qed
  have fresh: "resume_id = None \<longrightarrow> map_of base ''resume_id'' = Some VNone \<and>
        (\<exists>logger. dict_get project_config ''logger'' = Inr logger \<and>
           map_of base ''logger'' = Some logger)"
  proof
    assume "resume_id = None"
    with base have "base_config E stage None project_config = Inr base" by simp
    then show "map_of base ''resume_id'' = Some VNone \<and>
        (\<exists>logger. dict_get project_config ''logger'' = Inr logger \<and>
           map_of base ''logger'' = Some logger)"
      by (rule base_config_fresh)
  qed
  have resumed: "resume_id \<noteq> None \<longrightarrow> (\<exists>p. map_of base ''checkpoint_path'' = Some (VStr p))"
  proof
    assume "resume_id \<noteq> None"
    then obtain run_id where "resume_id = Some run_id" by (cases resume_id) simp_all
    with base have "base_config E stage (Some run_id) project_config = Inr base" by simp
    then show "\<exists>p. map_of base ''checkpoint_path'' = Some (VStr p)"
      by (rule base_config_resumed)
  qed
  show ?thesis
    by (rule exI [of _ base]) (intro conjI base fresh resumed keys)
qed

text \<open>
  C1, at a stage whose override holds a nested mapping \<open>opt\<close> and a library path:
  \<open>opt\<close> of the file is replaced as a whole, the library path of the project wins
  over the override, and \<open>set\<close> of the stage wins over the file.
\<close>

theorem load_config_precedence_witness:
  "load_config
       (example_env\<lparr>yaml_load := (\<lambda>t. Inr (VDict
          [(''opt'', VDict [(''x'', VInt 1), (''y'', VInt 2)]), (''set'', VStr ''from file'')]))\<rparr>)
       [(''set'', VStr ''s''), (''config'', VStr ''c.yaml''),
        (''override'', VDict [(''opt'', VDict [(''x'', VInt 5)]), (''model_library'', VStr ''/elsewhere'')])]
       None example_project [(''batch'', VBool True)]
     = Inr [(''opt'', VDict [(''x'', VInt 5)]), (''set'', VStr ''s''),
            (''logger'', VStr ''wandb''), (''resume_id'', VNone),
            (''model_library'', VStr ''/m''), (''artifact_library'', VStr ''/artifacts''),
            (''config'', VStr ''c.yaml''),
            (''override'', VDict [(''opt'', VDict [(''x'', VInt 5)]),
                                  (''model_library'', VStr ''/elsewhere'')])] \<and>
   (\<exists>base.
      map_of base ''opt'' = Some (VDict [(''x'', VInt 1), (''y'', VInt 2)]) \<and>
      map_of base ''set'' = Some (VStr ''from file'') \<and>
      map_of base ''logger'' = Some (VStr ''wandb'') \<and>
      (\<forall>k. k \<noteq> ''inference'' \<or>
             (inference_set [(''batch'', VBool True)] = Inr False \<and>
              inference_cleared [(''batch'', VBool True)] = Inr False) \<longrightarrow>
         map_of [(''opt'', VDict [(''x'', VInt 5)]), (''set'', VStr ''s''),
            (''logger'', VStr ''wandb''), (''resume_id'', VNone),
            (''model_library'', VStr ''/m''), (''artifact_library'', VStr ''/artifacts''),
            (''config'', VStr ''c.yaml''),
            (''override'', VDict [(''opt'', VDict [(''x'', VInt 5)]),
                                  (''model_library'', VStr ''/elsewhere'')])] k
         = last_writer
            [base,
             [(''opt'', VDict [(''x'', VInt 5)]), (''model_library'', VStr ''/elsewhere'')],
             [(''model_library'', VStr ''/m''), (''artifact_library'', VStr ''/artifacts'')],
             [(''set'', VStr ''s''), (''config'', VStr ''c.yaml''),
              (''override'', VDict [(''opt'', VDict [(''x'', VInt 5)]),
                                    (''model_library'', VStr ''/elsewhere'')])]] k))"
proof -
  let ?E = "example_env\<lparr>yaml_load := (\<lambda>t. Inr (VDict
          [(''opt'', VDict [(''x'', VInt 1), (''y'', VInt 2)]), (''set'', VStr ''from file'')]))\<rparr>"
  let ?ov = "[(''opt'', VDict [(''x'', VInt 5)]), (''model_library'', VStr ''/elsewhere'')]"
  let ?stage = "[(''set'', VStr ''s''), (''config'', VStr ''c.yaml''), (''override'', VDict ?ov)]"
  let ?libs = "[(''model_library'', VStr ''/m''), (''artifact_library'', VStr ''/artifacts'')]"
  let ?cfg = "[(''opt'', VDict [(''x'', VInt 5)]), (''set'', VStr ''s''),
            (''logger'', VStr ''wandb''), (''resume_id'', VNone),
            (''model_library'', VStr ''/m''), (''artifact_library'', VStr ''/artifacts''),
            (''config'', VStr ''c.yaml''), (''override'', VDict ?ov)]"
  let ?base = "[(''opt'', VDict [(''x'', VInt 1), (''y'', VInt 2)]), (''set'', VStr ''from file''),
            (''logger'', VStr ''wandb''), (''resume_id'', VNone)]"
  have run: "load_config ?E ?stage None example_project [(''batch'', VBool True)] = Inr ?cfg"
    by (simp add: run_defs)
  have base: "base_config ?E ?stage None example_project = Inr ?base"
    by (simp add: run_defs)
  have wf1: "wf_dict ?stage" and wf2: "wf_dict ?libs" and wf3: "wf_dict ?ov"
    by (simp_all add: wf_dict_def)
  have libs: "dict_get example_project ''libraries'' = Inr (VDict ?libs)"
    by (simp add: run_defs)
  have ov: "if dict_has ?stage ''override'' then dict_get ?stage ''override'' = Inr (VDict ?ov)
            else ?ov = []"
    by (simp add: run_defs)
  from load_config_precedence [OF run wf1 libs wf2 ov wf3] base
  have "\<forall>k. k \<noteq> ''inference'' \<or>
             (inference_set [(''batch'', VBool True)] = Inr False \<and>
              inference_cleared [(''batch'', VBool True)] = Inr False) \<longrightarrow>
         map_of ?cfg k = last_writer [?base, ?ov, ?libs, ?stage] k"
    by auto
  then have "map_of ?base ''opt'' = Some (VDict [(''x'', VInt 1), (''y'', VInt 2)]) \<and>
      map_of ?base ''set'' = Some (VStr ''from file'') \<and>
      map_of ?base ''logger'' = Some (VStr ''wandb'') \<and>
      (\<forall>k. k \<noteq> ''inference'' \<or>
             (inference_set [(''batch'', VBool True)] = Inr False \<and>
              inference_cleared [(''batch'', VBool True)] = Inr False) \<longrightarrow>
         map_of ?cfg k = last_writer [?base, ?ov, ?libs, ?stage] k)"
    by simp
  then have "\<exists>base. map_of base ''opt'' = Some (VDict [(''x'', VInt 1), (''y'', VInt 2)]) \<and>
      map_of base ''set'' = Some (VStr ''from file'') \<and>
      map_of base ''logger'' = Some (VStr ''wandb'') \<and>
      (\<forall>k. k \<noteq> ''inference'' \<or>
             (inference_set [(''batch'', VBool True)] = Inr False \<and>
              inference_cleared [(''batch'', VBool True)] = Inr False) \<longrightarrow>
         map_of ?cfg k = last_writer [base, ?ov, ?libs, ?stage] k)"
    by (rule exI [of _ ?base])
  with run show ?thesis by (rule conjI)
qed

text \<open>
  C4 as it is stated, with the flag kept in all other cases, fails at run arguments
  that hold a false \<open>inference\<close> and no \<open>batch\<close> at all: the layers give a
  configuration, and the second condition then reads \<open>run_args.batch\<close> and raises
  \<open>AttributeError\<close>, so that nothing is returned.
\<close>

theorem load_config_inference_absent_batch_counterexample:
  "map_of [(''inference'', VBool False)] ''inference'' = Some (VBool False) \<and>
   map_of [(''inference'', VBool False)] ''batch'' = None \<and>
   bindE (base_config example_env example_stage None example_project)
       (merge_layers example_stage example_project)
     = Inr [(''lr'', VInt 3), (''logger'', VStr ''wandb''), (''resume_id'', VNone),
            (''model_library'', VStr ''/m''), (''artifact_library'', VStr ''/artifacts''),
            (''set'', VStr ''s''), (''config'', VStr ''c.yaml''),
            (''override'', VDict [(''lr'', VInt 3)])] \<and>
   load_config example_env example_stage None example_project [(''inference'', VBool False)]
     = Inl AttributeError"
  by (simp add: run_defs)

text \<open>
  C4, with that case said. Let \<open>merged\<close> be what the layers give. If the run
  arguments hold a true \<open>inference\<close>, \<open>load_config\<close> returns \<open>merged\<close> with
  \<open>inference\<close> set to \<open>True\<close>, whether or not they hold \<open>batch\<close>. If they hold a
  false \<open>inference\<close> and a false \<open>batch\<close>, it returns \<open>merged\<close> with \<open>inference\<close>
  set to \<open>False\<close>. If \<open>inference\<close> is not among the run arguments, or is false
  while \<open>batch\<close> is true, it returns \<open>merged\<close> itself, with \<open>inference\<close> as the
  layers left it, absent included. If \<open>inference\<close> is false and \<open>batch\<close> is not
  among the run arguments, it raises \<open>AttributeError\<close>. Setting the flag changes the
  value of no other key.
\<close>

theorem load_config_inference_flag:
  "(bindE (base_config E stage resume_id project_config) (merge_layers stage project_config)
      = Inr merged \<longrightarrow>
    load_config E stage resume_id project_config run_args =
      (case map_of run_args ''inference'' of
         None \<Rightarrow> Inr merged
       | Some i \<Rightarrow>
           if truthy i then Inr (dict_set merged ''inference'' (VBool True))
           else (case map_of run_args ''batch'' of
                   None \<Rightarrow> Inl AttributeError
                 | Some b \<Rightarrow>
                     if truthy b then Inr merged
                     else Inr (dict_set merged ''inference'' (VBool False))))) \<and>
   map_of (dict_set merged ''inference'' (VBool flag)) ''inference'' = Some (VBool flag) \<and>
   (k \<noteq> ''inference'' \<longrightarrow>
      map_of (dict_set merged ''inference'' (VBool flag)) k = map_of merged k)"
proof -
  have run: "load_config E stage resume_id project_config run_args
      = inference_policy run_args merged"
    if "bindE (base_config E stage resume_id project_config) (merge_layers stage project_config)
      = Inr merged"
    using that by (simp add: load_config_assoc bindE_def)
  have flag: "map_of (dict_set merged ''inference'' (VBool flag)) ''inference'' = Some (VBool flag)"
    by (simp add: map_of_dict_set)
  have others: "k \<noteq> ''inference'' \<longrightarrow>
      map_of (dict_set merged ''inference'' (VBool flag)) k = map_of merged k"
    by (simp add: map_of_dict_set)
  from run flag others show ?thesis
    by (simp only: inference_policy_eq [symmetric]) blast
qed

text \<open>
  C4, at four calls: a true \<open>inference\<close> forces the flag that the stage had
  cleared, with no \<open>batch\<close> among the run arguments; \<open>inference\<close> false and
  \<open>batch\<close> false clears the flag that the stage had set; \<open>inference\<close> false and
  \<open>batch\<close> true keeps it; no \<open>inference\<close> among the run arguments and none in the
  layers leaves the key absent.
\<close>

theorem load_config_inference_flag_witness:
  "bindE (base_config example_env (example_stage @ [(''inference'', VBool False)]) None example_project)
       (merge_layers (example_stage @ [(''inference'', VBool False)]) example_project)
     = Inr [(''lr'', VInt 3), (''logger'', VStr ''wandb''), (''resume_id'', VNone),
            (''model_library'', VStr ''/m''), (''artifact_library'', VStr ''/artifacts''),
            (''set'', VStr ''s''), (''config'', VStr ''c.yaml''),
            (''override'', VDict [(''lr'', VInt 3)]), (''inference'', VBool False)] \<and>
   load_config example_env (example_stage @ [(''inference'', VBool False)]) None example_project
       [(''inference'', VBool True)]
     = Inr [(''lr'', VInt 3), (''logger'', VStr ''wandb''), (''resume_id'', VNone),
            (''model_library'', VStr ''/m''), (''artifact_library'', VStr ''/artifacts''),
            (''set'', VStr ''s''), (''config'', VStr ''c.yaml''),
            (''override'', VDict [(''lr'', VInt 3)]), (''inference'', VBool True)] \<and>
   bindE (base_config example_env (example_stage @ [(''inference'', VBool True)]) None example_project)
       (merge_layers (example_stage @ [(''inference'', VBool True)]) example_project)
     = Inr [(''lr'', VInt 3), (''logger'', VStr ''wandb''), (''resume_id'', VNone),
            (''model_library'', VStr ''/m''), (''artifact_library'', VStr ''/artifacts''),
            (''set'', VStr ''s''), (''config'', VStr ''c.yaml''),
            (''override'', VDict [(''lr'', VInt 3)]), (''inference'', VBool True)] \<and>
   load_config example_env (example_stage @ [(''inference'', VBool True)]) None example_project
       [(''inference'', VBool False), (''batch'', VBool False)]
     = Inr [(''lr'', VInt 3), (''logger'', VStr ''wandb''), (''resume_id'', VNone),
            (''model_library'', VStr ''/m''), (''artifact_library'', VStr ''/artifacts''),
            (''set'', VStr ''s''), (''config'', VStr ''c.yaml''),
            (''override'', VDict [(''lr'', VInt 3)]), (''inference'', VBool False)] \<and>
   load_config example_env (example_stage @ [(''inference'', VBool True)]) None example_project
       [(''inference'', VBool False), (''batch'', VBool True)]
     = Inr [(''lr'', VInt 3), (''logger'', VStr ''wandb''), (''resume_id'', VNone),
            (''model_library'', VStr ''/m''), (''artifact_library'', VStr ''/artifacts''),
            (''set'', VStr ''s''), (''config'', VStr ''c.yaml''),
            (''override'', VDict [(''lr'', VInt 3)]), (''inference'', VBool True)] \<and>
   bindE (base_config example_env example_stage (Some ''run123'') example_project)
       (merge_layers example_stage example_project)
     = Inr [(''lr'', VInt 3),
            (''checkpoint_path'', VStr ''/artifacts/run123/checkpoints/last.ckpt''),
            (''model_library'', VStr ''/m''), (''artifact_library'', VStr ''/artifacts''),
            (''set'', VStr ''s''), (''config'', VStr ''c.yaml''),
            (''override'', VDict [(''lr'', VInt 3)])] \<and>
   load_config example_env example_stage (Some ''run123'') example_project [(''batch'', VBool False)]
     = Inr [(''lr'', VInt 3),
            (''checkpoint_path'', VStr ''/artifacts/run123/checkpoints/last.ckpt''),
            (''model_library'', VStr ''/m''), (''artifact_library'', VStr ''/artifacts''),
            (''set'', VStr ''s''), (''config'', VStr ''c.yaml''),
            (''override'', VDict [(''lr'', VInt 3)])] \<and>
   map_of [(''lr'', VInt 3),
            (''checkpoint_path'', VStr ''/artifacts/run123/checkpoints/last.ckpt''),
            (''model_library'', VStr ''/m''), (''artifact_library'', VStr ''/artifacts''),
            (''set'', VStr ''s''), (''config'', VStr ''c.yaml''),
            (''override'', VDict [(''lr'', VInt 3)])] ''inference'' = None"
proof -
  let ?off_stage = "example_stage @ [(''inference'', VBool False)]"
  let ?on_stage = "example_stage @ [(''inference'', VBool True)]"
  let ?cfg = "\<lambda>flag. [(''lr'', VInt 3), (''logger'', VStr ''wandb''), (''resume_id'', VNone),
            (''model_library'', VStr ''/m''), (''artifact_library'', VStr ''/artifacts''),
            (''set'', VStr ''s''), (''config'', VStr ''c.yaml''),
            (''override'', VDict [(''lr'', VInt 3)]), (''inference'', VBool flag)]"
  let ?resumed = "[(''lr'', VInt 3),
            (''checkpoint_path'', VStr ''/artifacts/run123/checkpoints/last.ckpt''),
            (''model_library'', VStr ''/m''), (''artifact_library'', VStr ''/artifacts''),
            (''set'', VStr ''s''), (''config'', VStr ''c.yaml''),
            (''override'', VDict [(''lr'', VInt 3)])]"
  have m_off: "bindE (base_config example_env ?off_stage None example_project)
       (merge_layers ?off_stage example_project) = Inr (?cfg False)"
    by (simp add: run_defs)
  have m_on: "bindE (base_config example_env ?on_stage None example_project)
       (merge_layers ?on_stage example_project) = Inr (?cfg True)"
    by (simp add: run_defs)
  have m_res: "bindE (base_config example_env example_stage (Some ''run123'') example_project)
       (merge_layers example_stage example_project) = Inr ?resumed"
    by (simp add: run_defs)
  from load_config_inference_flag
    [of example_env ?off_stage None example_project "?cfg False" "[(''inference'', VBool True)]"]
    m_off
  have forced: "load_config example_env ?off_stage None example_project [(''inference'', VBool True)]
      = Inr (?cfg True)"
    by simp
  from load_config_inference_flag
    [of example_env ?on_stage None example_project "?cfg True"
        "[(''inference'', VBool False), (''batch'', VBool False)]"]
    m_on
  have cleared: "load_config example_env ?on_stage None example_project
      [(''inference'', VBool False), (''batch'', VBool False)] = Inr (?cfg False)"
    by simp
  from load_config_inference_flag
    [of example_env ?on_stage None example_project "?cfg True"
        "[(''inference'', VBool False), (''batch'', VBool True)]"]
    m_on
  have kept: "load_config example_env ?on_stage None example_project
      [(''inference'', VBool False), (''batch'', VBool True)] = Inr (?cfg True)"
    by simp
  from load_config_inference_flag
    [of example_env example_stage "Some ''run123''" example_project ?resumed
        "[(''batch'', VBool False)]"]
    m_res
  have absent: "load_config example_env example_stage (Some ''run123'') example_project
      [(''batch'', VBool False)] = Inr ?resumed"
    by simp
  have none: "map_of ?resumed ''inference'' = None" by simp
  from m_off forced m_on cleared kept m_res absent none show ?thesis by (intro conjI)
qed

text \<open>
  C6 as it is stated names the failure \<open>CheckpointNotFound\<close>. The code has no such
  error: \<open>find_checkpoint\<close> gives \<open>None\<close> without raising, \<open>load_config\<close> hands
  that \<open>None\<close> to \<open>torch.load\<close>, and the call fails with the \<open>AttributeError\<close> of
  the loader.
\<close>

theorem load_config_checkpoint_not_found_counterexample:
  "find_checkpoint example_env ''run999'' ''/artifacts'' = None \<and>
   torch_load example_env None = Inl AttributeError \<and>
   load_config example_env example_stage (Some ''run999'') example_project [] = Inl AttributeError"
  by (simp add: run_defs)

text \<open>
  C6, with the error the code gives. When the walk of the artifact library lists no
  directory named \<open>run_id\<close>, \<open>find_checkpoint\<close> returns \<open>None\<close> and
  \<open>load_config\<close> fails with the \<open>AttributeError\<close> that \<open>torch.load\<close> raises on
  \<open>None\<close>, whatever the stage and the run arguments.
\<close>

theorem load_config_missing_checkpoint:
  assumes "dict_get project_config ''libraries'' = Inr libs"
    and "subscript libs ''artifact_library'' = Inr (VStr path)"
    and "\<forall>(root_dir, dirs, files) \<in> set (os_walk E path). run_id \<notin> set dirs"
  shows "find_checkpoint E run_id path = None \<and>
         load_config E stage (Some run_id) project_config run_args = Inl AttributeError"
proof -
  have none: "find_checkpoint E run_id path = None"
    unfolding find_checkpoint_def find_checkpoint_loop_None using assms(3) .
  then have "base_config E stage (Some run_id) project_config = Inl AttributeError"
    by (simp add: base_config_def assms(1,2) bindE_def as_path_def torch_load_def)
  with none show ?thesis by (simp add: load_config_def bindE_def)
qed

text \<open>
  C6, at an artifact library that is not a directory at all, and at the artifact
  library of the example, which holds another run.
\<close>

theorem load_config_missing_checkpoint_witness:
  "dict_get (dict_set example_project ''libraries'' (VDict [(''artifact_library'', VStr ''/nowhere'')]))
       ''libraries'' = Inr (VDict [(''artifact_library'', VStr ''/nowhere'')]) \<and>
   subscript (VDict [(''artifact_library'', VStr ''/nowhere'')]) ''artifact_library''
     = Inr (VStr ''/nowhere'') \<and>
   os_walk example_env ''/nowhere'' = [] \<and>
   find_checkpoint example_env ''run123'' ''/nowhere'' = None \<and>
   load_config example_env example_stage (Some ''run123'')
       (dict_set example_project ''libraries'' (VDict [(''artifact_library'', VStr ''/nowhere'')]))
       [(''inference'', VBool True)] = Inl AttributeError \<and>
   os_walk example_env ''/artifacts''
     = [(''/artifacts'', [''run123''], []), (''/artifacts/run123'', [''checkpoints''], []),
        (''/artifacts/run123/checkpoints'', [], [''last.ckpt''])] \<and>
   find_checkpoint example_env ''run124'' ''/artifacts'' = None \<and>
   load_config example_env example_stage (Some ''run124'') example_project
       [(''batch'', VBool True)] = Inl AttributeError"
proof -
  let ?libs = "VDict [(''artifact_library'', VStr ''/nowhere'')]"
  let ?P = "dict_set example_project ''libraries'' ?libs"
  have l: "dict_get ?P ''libraries'' = Inr ?libs"
    by (simp add: example_project_def dict_get_def)
  have a: "subscript ?libs ''artifact_library'' = Inr (VStr ''/nowhere'')"
    by (simp add: subscript_def dict_get_def)
  have w: "os_walk example_env ''/nowhere'' = []"
    by (simp add: os_walk_def example_env_def)
  then have n: "\<forall>(root_dir, dirs, files) \<in> set (os_walk example_env ''/nowhere''). ''run123'' \<notin> set dirs"
    by simp
  from load_config_missing_checkpoint [OF l a n, of example_stage "[(''inference'', VBool True)]"]
  have empty: "find_checkpoint example_env ''run123'' ''/nowhere'' = None \<and>
      load_config example_env example_stage (Some ''run123'') ?P [(''inference'', VBool True)]
        = Inl AttributeError" .
  have l2: "dict_get example_project ''libraries''
      = Inr (VDict [(''model_library'', VStr ''/m''), (''artifact_library'', VStr ''/artifacts'')])"
    by (simp add: example_project_def dict_get_def)
  have a2: "subscript (VDict [(''model_library'', VStr ''/m''), (''artifact_library'', VStr ''/artifacts'')])
      ''artifact_library'' = Inr (VStr ''/artifacts'')"
    by (simp add: subscript_def dict_get_def)
  have w2: "os_walk example_env ''/artifacts''
     = [(''/artifacts'', [''run123''], []), (''/artifacts/run123'', [''checkpoints''], []),
        (''/artifacts/run123/checkpoints'', [], [''last.ckpt''])]"
    by (simp add: os_walk_def example_env_def os_path_join_def join_step_def)
  have n2: "\<forall>(root_dir, dirs, files) \<in> set (os_walk example_env ''/artifacts''). ''run124'' \<notin> set dirs"
    by (simp add: w2)
  from load_config_missing_checkpoint [OF l2 a2 n2, of example_stage "[(''batch'', VBool True)]"]
  have full: "find_checkpoint example_env ''run124'' ''/artifacts'' = None \<and>
      load_config example_env example_stage (Some ''run124'') example_project
        [(''batch'', VBool True)] = Inl AttributeError" .
  from l a w empty w2 full show ?thesis by (intro conjI) simp_all
qed

section \<open>Properties of the batch submission\<close>

lemma bindE_InrE:
  assumes "bindE m f = Inr y"
  obtains x where "m = Inr x" and "f x = Inr y"
  using assms by (cases m) (simp_all add: bindE_def)

lemma depends_on_previous_Inr:
  "depends_on_previous project_config running_id = Inr dep \<Longrightarrow>
   dep = (running_id \<noteq> VNone \<and>
          (\<exists>serial. dict_get project_config ''serial'' = Inr serial \<and> truthy serial))"
  by (cases "running_id = VNone"; cases "dict_get project_config ''serial''")
     (auto simp: depends_on_previous_def bindE_def)

lemma batch_submission_dependency:
  assumes "batch_submission B E config project_config running_id = Inr sub"
  shows "\<exists>dep. depends_on_previous project_config running_id = Inr dep \<and>
           dependency sub = (if dep then Some [(''afterok'', running_id)] else None)"
  using assms unfolding batch_submission_def
  by (elim bindE_InrE) auto

text \<open>
  C3. Whenever \<open>submit_batch\<close> gets as far as the scheduler, the submission it
  hands over carries the dependency \<open>afterok\<close> on the previous handle exactly when
  that handle is not \<open>None\<close> and \<open>serial\<close> of the project configuration is true; with
  \<open>serial\<close> false, or with no previous handle, it carries no dependency. The job
  identifier returned is the scheduler's answer to that submission.
\<close>

theorem submit_batch_dependency:
  assumes "batch_submission B E config project_config running_id = Inr sub"
  shows "submit_batch B E config project_config running_id = sbatch E sub \<and>
     dependency sub =
       (if running_id \<noteq> VNone \<and>
           (\<exists>serial. dict_get project_config ''serial'' = Inr serial \<and> truthy serial)
        then Some [(''afterok'', running_id)] else None) \<and>
     (dict_get project_config ''serial'' = Inr (VBool False) \<longrightarrow> dependency sub = None) \<and>
     (running_id = VNone \<longrightarrow> dependency sub = None) \<and>
     (dict_get project_config ''serial'' = Inr (VBool True) \<and> running_id \<noteq> VNone \<longrightarrow>
        dependency sub = Some [(''afterok'', running_id)])"
proof -
  from assms obtain dep where
    dep: "depends_on_previous project_config running_id = Inr dep" and
    sub: "dependency sub = (if dep then Some [(''afterok'', running_id)] else None)"
    using batch_submission_dependency by blast
  from dep have d: "dep = (running_id \<noteq> VNone \<and>
          (\<exists>serial. dict_get project_config ''serial'' = Inr serial \<and> truthy serial))"
    by (rule depends_on_previous_Inr)
  have run: "submit_batch B E config project_config running_id = sbatch E sub"
    by (simp add: submit_batch_def assms bindE_def)
  have main: "dependency sub =
       (if running_id \<noteq> VNone \<and>
           (\<exists>serial. dict_get project_config ''serial'' = Inr serial \<and> truthy serial)
        then Some [(''afterok'', running_id)] else None)"
    using sub d by simp
  have off: "dict_get project_config ''serial'' = Inr (VBool False) \<longrightarrow> dependency sub = None"
    using main by auto
  have first: "running_id = VNone \<longrightarrow> dependency sub = None"
    using main by auto
  have on: "dict_get project_config ''serial'' = Inr (VBool True) \<and> running_id \<noteq> VNone \<longrightarrow>
        dependency sub = Some [(''afterok'', running_id)]"
    using main by auto
  from run main off first on show ?thesis by (intro conjI)
qed

lemmas submit_defs = batch_submission_def depends_on_previous_def wants_setup_def py_join_def
  py_len_def list_add_def dict_to_args_def arg_tokens_def arg_leaves_def int_str_def
  digit_char_def

text \<open>
  C3, at the previous handle \<open>"123"\<close>: with \<open>serial\<close> true the submission depends
  on it, with \<open>serial\<close> false it does not.
\<close>

theorem submit_batch_dependency_witness:
  "batch_submission example_builtins example_env
       [(''batch_config'', VStr ''/b.yaml''), (''lr'', VInt 3)] example_project (VStr ''123'')
     = Inr \<lparr>options = [(''time'', VInt 1)],
            dependency = Some [(''afterok'', VStr ''123'')],
            command = ''module load x'' @ [CHR 0x0A] @ '' ttbatch --batch_config /b.yaml --lr 3'',
            sbatch_cmd = ''sbatch'', shell = ''/bin/bash''\<rparr> \<and>
   submit_batch example_builtins example_env
       [(''batch_config'', VStr ''/b.yaml''), (''lr'', VInt 3)] example_project (VStr ''123'')
     = Inr (VInt 124) \<and>
   dict_get example_project ''serial'' = Inr (VBool True) \<and>
   batch_submission example_builtins example_env
       [(''batch_config'', VStr ''/b.yaml''), (''lr'', VInt 3)]
       (dict_set example_project ''serial'' (VBool False)) (VStr ''123'')
     = Inr \<lparr>options = [(''time'', VInt 1)],
            dependency = None,
            command = ''module load x'' @ [CHR 0x0A] @ '' ttbatch --batch_config /b.yaml --lr 3'',
            sbatch_cmd = ''sbatch'', shell = ''/bin/bash''\<rparr> \<and>
   dict_get (dict_set example_project ''serial'' (VBool False)) ''serial'' = Inr (VBool False)"
proof -
  let ?config = "[(''batch_config'', VStr ''/b.yaml''), (''lr'', VInt 3)]"
  let ?cmd = "''module load x'' @ [CHR 0x0A] @ '' ttbatch --batch_config /b.yaml --lr 3''"
  let ?sub = "\<lambda>d. \<lparr>options = [(''time'', VInt 1)], dependency = d, command = ?cmd,
            sbatch_cmd = ''sbatch'', shell = ''/bin/bash''\<rparr>"
  let ?P = "dict_set example_project ''serial'' (VBool False)"
  have s1: "dict_get example_project ''serial'' = Inr (VBool True)"
    by (simp add: example_project_def dict_get_def)
  have s2: "dict_get ?P ''serial'' = Inr (VBool False)"
    by (simp add: example_project_def dict_get_def)
  have b1: "batch_submission example_builtins example_env ?config example_project (VStr ''123'')
      = Inr (?sub (Some [(''afterok'', VStr ''123'')]))"
    by (simp add: submit_defs run_defs)
  obtain sub where b2: "batch_submission example_builtins example_env ?config ?P (VStr ''123'')
      = Inr sub" and rest: "sub = ?sub (dependency sub)"
    by (simp add: submit_defs run_defs)
  from submit_batch_dependency [OF b1]
  have r1: "submit_batch example_builtins example_env ?config example_project (VStr ''123'')
      = Inr (VInt 124)"
    by (simp add: example_env_def)
  from submit_batch_dependency [OF b2] s2 have "dependency sub = None" by blast
  with rest b2 have b3: "batch_submission example_builtins example_env ?config ?P (VStr ''123'')
      = Inr (?sub None)"
    by simp
  from b1 r1 s1 b3 s2 show ?thesis by (intro conjI)
qed

end
